theory Spec2Isabelle
  imports Complex_Main "HOL-Library.Sublist"
begin

section \<open>Numbers\<close>

text \<open>
  A \<^verbatim>\<open>number\<close> of the program is an IEEE 754 binary64 value. The data types below are
  polymorphic in the number type, and the functions that only add, subtract, multiply,
  divide and compare are polymorphic too, so that one definition is read at three
  number types: at \<^typ>\<open>real\<close>, which is the exact arithmetic in which the specification
  states its data model; at the type \<open>double\<close> of section "Binary floating point",
  whose operations round as the program's do; and at numbers with a not-a-number value
  (the SVG importer). A function that holds a numeric literal or calls \<^verbatim>\<open>Math.round\<close>
  or \<^verbatim>\<open>toFixed\<close> is given twice, with the same body: under the source's name over the
  reals, and with the suffix \<open>_double\<close> in binary64 arithmetic.

  \<^verbatim>\<open>Math.round(x)\<close> is the integer nearest to \<open>x\<close>, a tie going towards plus infinity.
\<close>

definition Math_round :: "real \<Rightarrow> real" where
  "Math_round x = of_int \<lfloor>x + 1 / 2\<rfloor>"

definition Math_hypot :: "real \<Rightarrow> real \<Rightarrow> real" where
  "Math_hypot a b = sqrt (a * a + b * b)"

section \<open>Shapes (page.tsx, the variant with ids and selection)\<close>

datatype 'n point = Point (px: 'n) (py: 'n)

datatype 'n shape =
    Pen string "'n point list"
  | Rect string 'n 'n 'n 'n
  | Circle string 'n 'n 'n
  | Line string 'n 'n 'n 'n

fun shape_id :: "'n shape \<Rightarrow> string" where
  "shape_id (Pen i ps) = i"
| "shape_id (Rect i x y w h) = i"
| "shape_id (Circle i cx cy r) = i"
| "shape_id (Line i x1 y1 x2 y2) = i"

datatype tool = PenTool | RectTool | CircleTool | LineTool | SelectTool

definition GRID_SIZE :: real where
  "GRID_SIZE = 20"

definition snap :: "real \<Rightarrow> real" where
  "snap n = Math_round (n / GRID_SIZE) * GRID_SIZE"


section \<open>Geometry kernel\<close>

record bounds =
  bounds_x :: real
  bounds_y :: real
  bounds_w :: real
  bounds_h :: real

text \<open>
  \<^verbatim>\<open>getShapeBounds\<close>. The pen case returns \<^verbatim>\<open>null\<close> for an empty path; otherwise the
  source starts the running minima and maxima at plus and minus infinity and folds
  \<^verbatim>\<open>Math.min\<close> and \<^verbatim>\<open>Math.max\<close> over all points, which after the first point are that
  point's coordinates: the model starts the fold there.
\<close>

fun getShapeBounds :: "real shape \<Rightarrow> bounds option" where
  "getShapeBounds (Pen i ps) =
     (case ps of
        [] \<Rightarrow> None
      | p # qs \<Rightarrow>
          (let minX = fold (\<lambda>q m. min m (px q)) qs (px p);
               minY = fold (\<lambda>q m. min m (py q)) qs (py p);
               maxX = fold (\<lambda>q m. max m (px q)) qs (px p);
               maxY = fold (\<lambda>q m. max m (py q)) qs (py p)
           in Some \<lparr>bounds_x = minX, bounds_y = minY,
                     bounds_w = maxX - minX, bounds_h = maxY - minY\<rparr>))"
| "getShapeBounds (Rect i x y w h) =
     Some \<lparr>bounds_x = x, bounds_y = y, bounds_w = w, bounds_h = h\<rparr>"
| "getShapeBounds (Circle i cx cy r) =
     Some \<lparr>bounds_x = cx - r, bounds_y = cy - r, bounds_w = r * 2, bounds_h = r * 2\<rparr>"
| "getShapeBounds (Line i x1 y1 x2 y2) =
     Some \<lparr>bounds_x = min x1 x2, bounds_y = min y1 y2,
            bounds_w = \<bar>x2 - x1\<bar>, bounds_h = \<bar>y2 - y1\<bar>\<rparr>"

definition distanceToSegment :: "real point \<Rightarrow> real point \<Rightarrow> real point \<Rightarrow> real" where
  "distanceToSegment p a b =
     (let dx = px b - px a;
          dy = py b - py a;
          len = Math_hypot dx dy
      in if len = 0 then Math_hypot (px p - px a) (py p - py a)
         else
           (let t = max 0 (min 1 (((px p - px a) * dx + (py p - py a) * dy) / (len * len)));
                projX = px a + t * dx;
                projY = py a + t * dy
            in Math_hypot (px p - projX) (py p - projY)))"

text \<open>
  Reading an array past its end gives \<^verbatim>\<open>undefined\<close> in JavaScript, and
  \<^verbatim>\<open>distanceToSegment\<close> then throws a \<^verbatim>\<open>TypeError\<close> on \<^verbatim>\<open>a.x\<close> or \<^verbatim>\<open>b.x\<close>. The model
  makes every array read explicit, so that such a read is the error value.
\<close>

datatype error = TypeError

definition at_index :: "'a list \<Rightarrow> nat \<Rightarrow> 'a option" where
  "at_index xs i = (if i < length xs then Some (xs ! i) else None)"

text \<open>
  The pen case of \<^verbatim>\<open>isPointInShape\<close>:
  \<^verbatim>\<open>for (let i = 0; i < shape.points.length - 1; i++)\<close>. The bound \<^verbatim>\<open>length - 1\<close> is
  \<open>-1\<close> for an empty list, so the comparison is made on integers.
\<close>

function pen_segments_hit ::
  "real \<Rightarrow> real point \<Rightarrow> real point list \<Rightarrow> nat \<Rightarrow> error + bool" where
  "pen_segments_hit hitThreshold point pts i =
     (if int i < int (length pts) - 1 then
        (case (at_index pts i, at_index pts (i + 1)) of
           (Some p1, Some p2) \<Rightarrow>
             if distanceToSegment point p1 p2 < hitThreshold then Inr True
             else pen_segments_hit hitThreshold point pts (i + 1)
         | _ \<Rightarrow> Inl TypeError)
      else Inr False)"
  by pat_completeness auto
termination
  by (relation "measure (\<lambda>(h, p, pts, i). length pts - i)") auto

declare pen_segments_hit.simps [simp del]

text \<open>
  \<^verbatim>\<open>isPointInShape\<close>; the first argument is the current zoom, read from the component's
  state in the source.
\<close>

fun isPointInShape :: "real \<Rightarrow> real point \<Rightarrow> real shape \<Rightarrow> error + bool" where
  "isPointInShape z point (Pen i pts) = pen_segments_hit (10 / z) point pts 0"
| "isPointInShape z point (Rect i x y w h) =
     Inr (px point \<ge> x \<and> px point \<le> x + w \<and> py point \<ge> y \<and> py point \<le> y + h)"
| "isPointInShape z point (Circle i cx cy r) =
     (let dist = Math_hypot (px point - cx) (py point - cy)
      in Inr (\<bar>dist - r\<bar> < 10 / z \<or> dist < r))"
| "isPointInShape z point (Line i x1 y1 x2 y2) =
     Inr (distanceToSegment point (Point x1 y1) (Point x2 y2) < 10 / z)"

section \<open>Shape model\<close>

fun moveShapeBy :: "('n::plus) shape \<Rightarrow> 'n \<Rightarrow> 'n \<Rightarrow> 'n shape" where
  "moveShapeBy (Pen i ps) deltaX deltaY =
     Pen i (map (\<lambda>p. Point (px p + deltaX) (py p + deltaY)) ps)"
| "moveShapeBy (Rect i x y w h) deltaX deltaY = Rect i (x + deltaX) (y + deltaY) w h"
| "moveShapeBy (Circle i cx cy r) deltaX deltaY = Circle i (cx + deltaX) (cy + deltaY) r"
| "moveShapeBy (Line i x1 y1 x2 y2) deltaX deltaY =
     Line i (x1 + deltaX) (y1 + deltaY) (x2 + deltaX) (y2 + deltaY)"

section \<open>Component state and events\<close>

text \<open>
  The state cells of the \<^verbatim>\<open>Home\<close> component (\<^verbatim>\<open>useState\<close>), as one record that every
  handler takes and returns. A handler's \<^verbatim>\<open>setX\<close> calls become updates of the record.
\<close>

record 'n state =
  tool :: tool
  isDrawing :: bool
  isPanning :: bool
  isDragging :: bool
  start :: "'n point"
  zoom :: 'n
  pan :: "'n point"
  shapes :: "'n shape list"
  selectedShapeIds :: "string set"
  currentPenPoints :: "'n point list"
  panStart :: "'n point"
  dragOffset :: "'n point"

text \<open>
  \<^verbatim>\<open>canvasRef.current\<close> is either \<^verbatim>\<open>null\<close> or the canvas element, of which the handlers
  read the bounding rectangle's \<^verbatim>\<open>left\<close> and \<^verbatim>\<open>top\<close>, and whether \<^verbatim>\<open>getContext("2d")\<close>
  gives a context.
\<close>

record 'n canvas =
  rect_left :: 'n
  rect_top :: 'n
  has_context_2d :: bool

record 'n mouse_event =
  clientX :: 'n
  clientY :: 'n

record 'n wheel_event = "'n mouse_event" +
  deltaY :: 'n

definition getCtx :: "'n canvas option \<Rightarrow> 'n canvas option" where
  "getCtx canvasRef =
     (case canvasRef of
        None \<Rightarrow> None
      | Some cv \<Rightarrow> if has_context_2d cv then Some cv else None)"

section \<open>Viewport transform\<close>

text \<open>
  \<^verbatim>\<open>pos\<close>: the world coordinates of a mouse event. It dereferences
  \<^verbatim>\<open>canvasRef.current!\<close>, so it takes the canvas itself.
\<close>

definition pos ::
  "('n::{minus,inverse}) canvas \<Rightarrow> 'n state \<Rightarrow> ('n, 'a) mouse_event_scheme \<Rightarrow> 'n point" where
  "pos cv st e =
     (let canvasX = clientX e - rect_left cv;
          canvasY = clientY e - rect_top cv
      in Point ((canvasX - px (pan st)) / zoom st) ((canvasY - py (pan st)) / zoom st))"





definition handleZoomReset :: "('n::{zero,one}) state \<Rightarrow> 'n state" where
  "handleZoomReset st = st\<lparr>zoom := 1, pan := Point 0 0\<rparr>"


section \<open>Interaction controller\<close>

text \<open>
  \<^verbatim>\<open>endDraw\<close> (mouse up, mouse leave). \<^verbatim>\<open>generateId()\<close> reads the clock and a random
  number: the id it returns is an argument here.
\<close>

definition endDraw ::
  "real canvas option \<Rightarrow> string \<Rightarrow> real mouse_event \<Rightarrow> real state \<Rightarrow> real state" where
  "endDraw canvasRef newId e st =
     (if isPanning st then st\<lparr>isPanning := False\<rparr>
      else if isDragging st then st\<lparr>isDragging := False\<rparr>
      else if \<not> isDrawing st then st
      else
        (let st1 = st\<lparr>isDrawing := False\<rparr> in
         case getCtx canvasRef of
           None \<Rightarrow> st1
         | Some cv \<Rightarrow>
             if tool st = PenTool \<and> length (currentPenPoints st) > 1 then
               st1\<lparr>currentPenPoints := [],
                    shapes := shapes st @ [Pen newId (currentPenPoints st)]\<rparr>
             else if tool st \<noteq> PenTool \<and> tool st \<noteq> SelectTool then
               (let p = pos cv st e;
                    curr = Point (snap (px p)) (snap (py p));
                    s = start st
                in case tool st of
                     RectTool \<Rightarrow>
                       st1\<lparr>shapes := shapes st @
                         [Rect newId (px s) (py s) (px curr - px s) (py curr - py s)]\<rparr>
                   | CircleTool \<Rightarrow>
                       st1\<lparr>shapes := shapes st @
                         [Circle newId (px s) (py s)
                            (Math_hypot (px curr - px s) (py curr - py s))]\<rparr>
                   | LineTool \<Rightarrow>
                       st1\<lparr>shapes := shapes st @
                         [Line newId (px s) (py s) (px curr) (py curr)]\<rparr>
                   | _ \<Rightarrow> st1)
             else st1))"

text \<open>The \<^verbatim>\<open>keydown\<close> listener; the argument is \<^verbatim>\<open>e.key\<close>.\<close>

definition handleKeyDown :: "string \<Rightarrow> 'n state \<Rightarrow> 'n state" where
  "handleKeyDown key st =
     (if key = ''Delete'' \<and> selectedShapeIds st \<noteq> {} then
        st\<lparr>shapes := filter (\<lambda>s. shape_id s \<notin> selectedShapeIds st) (shapes st),
           selectedShapeIds := {}\<rparr>
      else st)"

text \<open>The initial values of the state cells.\<close>

definition initial_state :: "real state" where
  "initial_state =
     \<lparr>tool = PenTool, isDrawing = False, isPanning = False, isDragging = False,
      start = Point 0 0, zoom = 1, pan = Point 0 0, shapes = [],
      selectedShapeIds = {}, currentPenPoints = [],
      panStart = Point 0 0, dragOffset = Point 0 0\<rparr>"

section \<open>SVG importer\<close>

text \<open>
  Numbers read from text may be \<^verbatim>\<open>NaN\<close>: in the importer a number is a \<^typ>\<open>real option\<close>,
  \<open>None\<close> standing for \<^verbatim>\<open>NaN\<close>, and arithmetic with \<^verbatim>\<open>NaN\<close> gives \<^verbatim>\<open>NaN\<close>.
\<close>

type_synonym num = "real option"

definition num_add :: "num \<Rightarrow> num \<Rightarrow> num" where
  "num_add a b = (case (a, b) of (Some x, Some y) \<Rightarrow> Some (x + y) | _ \<Rightarrow> None)"

definition num_div :: "num \<Rightarrow> real \<Rightarrow> num" where
  "num_div a d = map_option (\<lambda>x. x / d) a"

text \<open>
  Strings are lists of 8-bit characters. White space (\<^verbatim>\<open>trim\<close>, \<^verbatim>\<open>\s\<close>) is the ASCII
  part of JavaScript's white space: space, tab, line feed, vertical tab, form feed,
  carriage return.
\<close>

definition isSpace :: "char \<Rightarrow> bool" where
  "isSpace c = (c \<in> set [CHR '' '', CHR 0x09, CHR 0x0A, CHR 0x0B, CHR 0x0C, CHR 0x0D])"

definition trim :: "string \<Rightarrow> string" where
  "trim s = rev (dropWhile isSpace (rev (dropWhile isSpace s)))"

definition toLowerCase :: "string \<Rightarrow> string" where
  "toLowerCase s =
     map (\<lambda>c. if c \<in> set ''ABCDEFGHIJKLMNOPQRSTUVWXYZ''
              then char_of (of_char c + (32::nat)) else c) s"

definition isDigit :: "char \<Rightarrow> bool" where
  "isDigit c = (c \<in> set ''0123456789'')"

definition digit_value :: "char \<Rightarrow> nat" where
  "digit_value c = of_char c - 48"

definition digits_value :: "string \<Rightarrow> nat" where
  "digits_value ds = foldl (\<lambda>n c. 10 * n + digit_value c) 0 ds"

text \<open>
  \<^verbatim>\<open>parseFloat\<close> skips leading white space and reads the longest prefix that is a
  decimal literal: an optional sign, digits with an optional fraction (or a fraction
  alone), and an exponent part when digits follow the \<^verbatim>\<open>e\<close>. The result is \<^verbatim>\<open>NaN\<close> when
  there is no such prefix. The literal \<^verbatim>\<open>Infinity\<close> has no value among the reals and is
  read as \<^verbatim>\<open>NaN\<close> here; in path data it cannot reach \<^verbatim>\<open>parseFloat\<close>, since \<^verbatim>\<open>t\<close> is a
  command letter.
\<close>

definition parseFloat :: "string \<Rightarrow> num" where
  "parseFloat str =
     (let s0 = dropWhile isSpace str;
          negative = (s0 \<noteq> [] \<and> hd s0 = CHR ''-'');
          s1 = (if s0 \<noteq> [] \<and> (hd s0 = CHR ''-'' \<or> hd s0 = CHR ''+'') then tl s0 else s0);
          intDigits = takeWhile isDigit s1;
          s2 = dropWhile isDigit s1;
          hasDot = (s2 \<noteq> [] \<and> hd s2 = CHR ''.'');
          fracDigits = (if hasDot then takeWhile isDigit (tl s2) else []);
          s3 = (if hasDot then dropWhile isDigit (tl s2) else s2)
      in if intDigits = [] \<and> fracDigits = [] then None
         else
           (let mantissa = real (digits_value (intDigits @ fracDigits)) / 10 ^ length fracDigits;
                hasE = (s3 \<noteq> [] \<and> (hd s3 = CHR ''e'' \<or> hd s3 = CHR ''E''));
                s4 = (if hasE then tl s3 else []);
                expNegative = (s4 \<noteq> [] \<and> hd s4 = CHR ''-'');
                s5 = (if s4 \<noteq> [] \<and> (hd s4 = CHR ''-'' \<or> hd s4 = CHR ''+'') then tl s4 else s4);
                expDigits = takeWhile isDigit s5;
                e = digits_value expDigits;
                magnitude = (if expNegative then mantissa / 10 ^ e else mantissa * 10 ^ e)
            in Some (if negative then - magnitude else magnitude)))"

text \<open>
  \<^verbatim>\<open>s.split(/[...]/)\<close> with a one-character pattern: the pieces between the matching
  characters, one more piece than there are matches, empty pieces included.
\<close>

primrec split_at_each :: "(char \<Rightarrow> bool) \<Rightarrow> string \<Rightarrow> string list" where
  "split_at_each sep [] = [[]]"
| "split_at_each sep (c # cs) =
     (if sep c then [] # split_at_each sep cs
      else (case split_at_each sep cs of
              [] \<Rightarrow> [[c]]
            | t # ts \<Rightarrow> (c # t) # ts))"

text \<open>
  \<^verbatim>\<open>s.split(/[...]+/)\<close>: the pieces between the maximal runs of matching characters; a
  run at the start or at the end leaves an empty piece there.
\<close>

function split_at_runs :: "(char \<Rightarrow> bool) \<Rightarrow> string \<Rightarrow> string list" where
  "split_at_runs sep s =
     (let piece = takeWhile (\<lambda>c. \<not> sep c) s;
          rest = dropWhile (\<lambda>c. \<not> sep c) s
      in if rest = [] then [piece]
         else piece # split_at_runs sep (dropWhile sep rest))"
  by pat_completeness auto
termination
proof (relation "measure (\<lambda>(sep, s). length s)")
  show "wf (measure (\<lambda>(sep, s). length s))" by simp
next
  fix sep :: "char \<Rightarrow> bool" and s piece rest
  assume r: "rest = dropWhile (\<lambda>c. \<not> sep c) s" and ne: "rest \<noteq> []"
  from ne obtain c cs where rc: "rest = c # cs" by (cases rest) auto
  have sc: "sep c"
    using hd_dropWhile [of "\<lambda>c. \<not> sep c" s] ne r rc by (metis list.sel(1))
  have "length (dropWhile sep rest) \<le> length cs"
    using sc rc by (simp add: length_dropWhile_le)
  moreover have "length rest \<le> length s"
    unfolding r by (rule length_dropWhile_le)
  ultimately show "((sep, dropWhile sep rest), (sep, s)) \<in> measure (\<lambda>(sep, s). length s)"
    using rc by simp
qed

declare split_at_runs.simps [simp del]

definition isCommand :: "char \<Rightarrow> bool" where
  "isCommand c = (c \<in> set ''MmLlHhVvCcSsQqTtAaZz'')"

definition isMoveOrLine :: "char \<Rightarrow> bool" where
  "isMoveOrLine c = (c \<in> set ''MmLl'')"

definition isSpaceOrComma :: "char \<Rightarrow> bool" where
  "isSpaceOrComma c = (isSpace c \<or> c = CHR '','')"

text \<open>
  The loop of \<^verbatim>\<open>parsePath\<close> over the command letters, with its variables \<^verbatim>\<open>i\<close>,
  \<^verbatim>\<open>current\<close> and \<^verbatim>\<open>points\<close>. \<^verbatim>\<open>values[i] || ""\<close> is the empty string past the end of
  \<^verbatim>\<open>values\<close>.
\<close>

fun parsePath_loop ::
  "string list \<Rightarrow> nat \<Rightarrow> num point \<Rightarrow> num point list \<Rightarrow> string \<Rightarrow> num point list" where
  "parsePath_loop values i current points [] = points"
| "parsePath_loop values i current points (cmd # commands) =
     (let nums = map parseFloat
                   (filter (\<lambda>s. s \<noteq> [])
                      (split_at_runs isSpaceOrComma
                         (trim (case at_index values i of None \<Rightarrow> [] | Some v \<Rightarrow> v))))
      in if cmd = CHR ''M'' \<or> cmd = CHR ''m'' then
           (if length nums \<ge> 2 then
              (let current' =
                     (if cmd = CHR ''m''
                      then Point (num_add (px current) (nums ! 0)) (num_add (py current) (nums ! 1))
                      else Point (nums ! 0) (nums ! 1))
               in parsePath_loop values (i + 1) current' (points @ [current']) commands)
            else parsePath_loop values (i + 1) current points commands)
         else if cmd = CHR ''L'' \<or> cmd = CHR ''l'' then
           (if length nums \<ge> 2 then
              (let current' =
                     (if cmd = CHR ''l''
                      then Point (num_add (px current) (nums ! 0)) (num_add (py current) (nums ! 1))
                      else Point (nums ! 0) (nums ! 1))
               in parsePath_loop values (i + 1) current' (points @ [current']) commands)
            else parsePath_loop values (i + 1) current points commands)
         else parsePath_loop values (i + 1) current points commands)"

definition parsePath :: "string \<Rightarrow> num point list" where
  "parsePath d =
     (let commands = filter isCommand d;
          values = filter (\<lambda>s. trim s \<noteq> []) (split_at_each isCommand d)
      in parsePath_loop values 0 (Point (Some 0) (Some 0)) [] commands)"

text \<open>
  \<^verbatim>\<open>parsePoints\<close>: the tokens are taken two by two, a last token without a partner is
  dropped.
\<close>

fun parsePoints_pairs :: "string list \<Rightarrow> num point list" where
  "parsePoints_pairs (a # b # tokens) = Point (parseFloat a) (parseFloat b) # parsePoints_pairs tokens"
| "parsePoints_pairs tokens = []"

definition parsePoints :: "string \<Rightarrow> num point list" where
  "parsePoints pointsAttr = parsePoints_pairs (split_at_runs isSpaceOrComma (trim pointsAttr))"

text \<open>
  An element is its tag name and its attributes; \<^verbatim>\<open>getAttribute\<close> gives \<^verbatim>\<open>null\<close> for an
  attribute that is not there. \<^verbatim>\<open>getAttribute(a) || "0"\<close> is \<^verbatim>\<open>"0"\<close> for a missing or an
  empty attribute.
\<close>

record element =
  tagName :: string
  attributes :: "(string \<times> string) list"

definition getAttribute :: "element \<Rightarrow> string \<Rightarrow> string option" where
  "getAttribute el name = map_of (attributes el) name"

definition attribute_or_zero :: "element \<Rightarrow> string \<Rightarrow> string" where
  "attribute_or_zero el name =
     (case getAttribute el name of
        None \<Rightarrow> ''0''
      | Some v \<Rightarrow> if v = [] then ''0'' else v)"

text \<open>
  \<^verbatim>\<open>parseSVGElement\<close>; the first argument is the id that \<^verbatim>\<open>generateId()\<close> returns.
  Nothing in the body of the \<^verbatim>\<open>try\<close> throws, so the \<^verbatim>\<open>catch\<close> branch has no case here.
\<close>

definition parseSVGElement :: "string \<Rightarrow> element \<Rightarrow> num shape option" where
  "parseSVGElement newId el =
     (let tag = toLowerCase (tagName el) in
      if tag = ''rect'' then
        Some (Rect newId (parseFloat (attribute_or_zero el ''x''))
                (parseFloat (attribute_or_zero el ''y''))
                (parseFloat (attribute_or_zero el ''width''))
                (parseFloat (attribute_or_zero el ''height'')))
      else if tag = ''circle'' then
        Some (Circle newId (parseFloat (attribute_or_zero el ''cx''))
                (parseFloat (attribute_or_zero el ''cy''))
                (parseFloat (attribute_or_zero el ''r'')))
      else if tag = ''ellipse'' then
        (let rx = parseFloat (attribute_or_zero el ''rx'');
             ry = parseFloat (attribute_or_zero el ''ry'')
         in Some (Circle newId (parseFloat (attribute_or_zero el ''cx''))
                    (parseFloat (attribute_or_zero el ''cy''))
                    (num_div (num_add rx ry) 2)))
      else if tag = ''line'' then
        Some (Line newId (parseFloat (attribute_or_zero el ''x1''))
                (parseFloat (attribute_or_zero el ''y1''))
                (parseFloat (attribute_or_zero el ''x2''))
                (parseFloat (attribute_or_zero el ''y2'')))
      else if tag = ''polyline'' \<or> tag = ''polygon'' then
        (case getAttribute el ''points'' of
           None \<Rightarrow> None
         | Some pointsAttr \<Rightarrow>
             if pointsAttr = [] then None
             else
               (let points = parsePoints pointsAttr
                in if length points < 2 then None else Some (Pen newId points)))
      else if tag = ''path'' then
        (case getAttribute el ''d'' of
           None \<Rightarrow> None
         | Some d \<Rightarrow>
             if d = [] then None
             else
               (let pathPoints = parsePath d
                in if length pathPoints < 2 then None else Some (Pen newId pathPoints)))
      else None)"

section \<open>Binary floating point\<close>

text \<open>
  At run time a \<^verbatim>\<open>number\<close> is an IEEE 754 binary64 value, and every arithmetic
  operation rounds its exact result to the nearest such value, a tie going to the even
  significand. \<open>Double m e\<close> denotes \<open>m * 2 ^ e\<close>; a value other than zero is kept
  with a significand of exactly 53 bits, zero is \<open>Double 0 0\<close>. The exponent is
  unbounded here (no overflow to infinity, no subnormal numbers), and there is no
  \<^verbatim>\<open>NaN\<close> and no negative zero: the model is for results of ordinary magnitude, and a
  division by zero, which gives an infinity or \<^verbatim>\<open>NaN\<close> in JavaScript, has no meaning in
  it (it is given the value zero).
\<close>

datatype double = Double int int

definition double_value :: "double \<Rightarrow> real" where
  "double_value a = (case a of Double m e \<Rightarrow> of_int m * 2 powi e)"

function bit_length :: "int \<Rightarrow> nat" where
  "bit_length n = (if n \<le> 0 then 0 else Suc (bit_length (n div 2)))"
  by pat_completeness auto
termination
  by (relation "measure nat") auto

declare bit_length.simps [simp del]

definition round_to_double :: "int \<Rightarrow> int \<Rightarrow> double" where
  "round_to_double m e =
     (if m = 0 then Double 0 0
      else
        (let k = int (bit_length \<bar>m\<bar>) - 53
         in if k \<le> 0 then Double (m * 2 ^ nat (- k)) (e + k)
            else
              (let q = m div 2 ^ nat k;
                   r = m mod 2 ^ nat k;
                   half = 2 ^ (nat k - 1);
                   q' = (if r > half \<or> (r = half \<and> odd q) then q + 1 else q)
               in if \<bar>q'\<bar> = 2 ^ 53 then Double (q' div 2) (e + k + 1)
                  else Double q' (e + k))))"

text \<open>
  \<open>round_ratio n d e\<close> is the binary64 value nearest to \<open>(n / d) * 2 ^ e\<close>, for
  \<open>d > 0\<close>. The quotient is taken with at least 55 bits, and one more bit below them
  records whether the division left a remainder, so that rounding the resulting integer
  is rounding the exact quotient.
\<close>

definition round_ratio :: "int \<Rightarrow> int \<Rightarrow> int \<Rightarrow> double" where
  "round_ratio n d e =
     (if n = 0 \<or> d \<le> 0 then Double 0 0
      else
        (let s = nat (max 0 (55 + int (bit_length d) - int (bit_length \<bar>n\<bar>)));
             q = (n * 2 ^ s) div d;
             r = (n * 2 ^ s) mod d;
             m = 2 * q + (if r = 0 then 0 else 1)
         in round_to_double m (e - int s - 1)))"

text \<open>
  A decimal literal of the source with digits \<open>a\<close> and \<open>k\<close> decimals (\<^verbatim>\<open>0.9\<close> is
  \<open>decimal 9 1\<close>, \<^verbatim>\<open>5\<close> is \<open>decimal 5 0\<close>) is the binary64 value nearest to
  \<open>a / 10 ^ k\<close>; so is what \<^verbatim>\<open>parseFloat\<close> reads from such a decimal.
\<close>

definition decimal :: "int \<Rightarrow> nat \<Rightarrow> double" where
  "decimal a k = round_ratio a (10 ^ k) 0"

instantiation double :: "{plus, uminus, minus, times, zero, one, inverse, ord}"
begin

definition plus_double :: "double \<Rightarrow> double \<Rightarrow> double" where
  "plus_double a b =
     (case (a, b) of
        (Double m1 e1, Double m2 e2) \<Rightarrow>
          (let e = min e1 e2
           in round_to_double (m1 * 2 ^ nat (e1 - e) + m2 * 2 ^ nat (e2 - e)) e))"

definition uminus_double :: "double \<Rightarrow> double" where
  "uminus_double a = (case a of Double m e \<Rightarrow> Double (- m) e)"

definition minus_double :: "double \<Rightarrow> double \<Rightarrow> double" where
  "minus_double a b = a + (- b)"

definition times_double :: "double \<Rightarrow> double \<Rightarrow> double" where
  "times_double a b =
     (case (a, b) of
        (Double m1 e1, Double m2 e2) \<Rightarrow> round_to_double (m1 * m2) (e1 + e2))"

definition zero_double :: double where
  "zero_double = Double 0 0"

definition one_double :: double where
  "one_double = round_to_double 1 0"

definition divide_double :: "double \<Rightarrow> double \<Rightarrow> double" where
  "divide_double a b =
     (case (a, b) of
        (Double m1 e1, Double m2 e2) \<Rightarrow> round_ratio (m1 * sgn m2) \<bar>m2\<bar> (e1 - e2))"

definition inverse_double :: "double \<Rightarrow> double" where
  "inverse_double a = 1 div a"

definition less_eq_double :: "double \<Rightarrow> double \<Rightarrow> bool" where
  "less_eq_double a b = (double_value a \<le> double_value b)"

definition less_double :: "double \<Rightarrow> double \<Rightarrow> bool" where
  "less_double a b = (double_value a < double_value b)"

instance ..

end

text \<open>
  \<^verbatim>\<open>Math.round\<close> gives the integer nearest to the exact value of its argument, a tie
  going towards plus infinity; that integer is a binary64 value.
\<close>

definition Math_round_double :: "double \<Rightarrow> double" where
  "Math_round_double x = round_to_double \<lfloor>double_value x + 1 / 2\<rfloor> 0"

text \<open>
  \<^verbatim>\<open>parseFloat(x.toFixed(2))\<close> on a binary64 value: \<^verbatim>\<open>toFixed\<close> works on the exact
  value of \<open>x\<close>, and \<^verbatim>\<open>parseFloat\<close> gives the binary64 value nearest to the decimal it
  reads.
\<close>

definition parseFloat_toFixed2_double :: "double \<Rightarrow> double" where
  "parseFloat_toFixed2_double x =
     (if 10 ^ 21 \<le> \<bar>double_value x\<bar> then x
      else
        (let n = \<lfloor>\<bar>double_value x\<bar> * 100 + 1 / 2\<rfloor>
         in decimal (if double_value x < 0 then - n else n) 2))"


definition handleZoomIn_double :: "double state \<Rightarrow> double state" where
  "handleZoomIn_double st =
     st\<lparr>zoom := min (parseFloat_toFixed2_double (zoom st * decimal 12 1)) (decimal 5 0)\<rparr>"

definition handleZoomOut_double :: "double state \<Rightarrow> double state" where
  "handleZoomOut_double st =
     st\<lparr>zoom := max (parseFloat_toFixed2_double (zoom st / decimal 12 1)) (decimal 1 1)\<rparr>"

definition handleWheel_double ::
  "double canvas option \<Rightarrow> double wheel_event \<Rightarrow> double state \<Rightarrow> double state" where
  "handleWheel_double canvasRef e st =
     (case canvasRef of
        None \<Rightarrow> st
      | Some cv \<Rightarrow>
          (let canvasX = clientX e - rect_left cv;
               canvasY = clientY e - rect_top cv;
               worldX = (canvasX - px (pan st)) / zoom st;
               worldY = (canvasY - py (pan st)) / zoom st;
               delta = (if 0 < deltaY e then decimal 9 1 else decimal 11 1);
               newZoom = min (max (parseFloat_toFixed2_double (zoom st * delta)) (decimal 1 1))
                           (decimal 5 0);
               newPanX = canvasX - worldX * newZoom;
               newPanY = canvasY - worldY * newZoom
           in st\<lparr>zoom := newZoom, pan := Point newPanX newPanY\<rparr>))"

definition initial_state_double :: "double state" where
  "initial_state_double =
     \<lparr>tool = PenTool, isDrawing = False, isPanning = False, isDragging = False,
      start = Point 0 0, zoom = 1, pan = Point 0 0, shapes = [],
      selectedShapeIds = {}, currentPenPoints = [],
      panStart = Point 0 0, dragOffset = Point 0 0\<rparr>"

section \<open>Grid snapping: properties\<close>

lemma snap_multiple: "snap x = 20 * of_int \<lfloor>x / 20 + 1 / 2\<rfloor>"
  by (simp add: snap_def Math_round_def GRID_SIZE_def)

lemma snap_of_multiple: "snap (20 * of_int k) = 20 * of_int k"
proof -
  have "\<lfloor>(of_int k :: real) + 1 / 2\<rfloor> = k"
    by linarith
  then show ?thesis
    by (simp add: snap_multiple)
qed


section \<open>Bounding boxes\<close>

text \<open>
  The line case of \<open>getShapeBounds\<close> returns the minimum corner and non-negative
  extents, whatever the order of the end points.
\<close>

lemma getShapeBounds_line_normalized:
  "getShapeBounds (Line i x1 y1 x2 y2) = Some b \<Longrightarrow>
     0 \<le> bounds_w b \<and> 0 \<le> bounds_h b
     \<and> bounds_x b = min x1 x2 \<and> bounds_y b = min y1 y2
     \<and> bounds_x b + bounds_w b = max x1 x2 \<and> bounds_y b + bounds_h b = max y1 y2"
  by auto

text \<open>
  Claim C2, as amended. For every Rect shape \<open>getShapeBounds\<close> returns a box, and the
  box is the stored anchor and extents \<open>(x, y, w, h)\<close> as they are (the rectangle case
  does no arithmetic). That box is normalized, which is to say its \<open>w\<close> and \<open>h\<close> are
  non-negative and its \<open>(x, y)\<close> is the minimum corner of the rectangle spanned by the
  anchor and the anchor plus \<open>(w, h)\<close>, exactly when the shape's \<open>w\<close> and \<open>h\<close> are
  non-negative; for a negative \<open>w\<close> or \<open>h\<close> the box is returned un-normalized.
\<close>

theorem getShapeBounds_rect_as_stored:
  "\<exists>b. getShapeBounds (Rect i x y w h) = Some b
     \<and> b = \<lparr>bounds_x = x, bounds_y = y, bounds_w = w, bounds_h = h\<rparr>
     \<and> ((0 \<le> bounds_w b \<and> 0 \<le> bounds_h b
            \<and> bounds_x b = min x (x + w) \<and> bounds_y b = min y (y + h))
          = (0 \<le> w \<and> 0 \<le> h))"
  by auto

text \<open>
  For the rectangle drawn from \<open>(100, 100)\<close> to \<open>(60, 40)\<close>, whose \<open>w\<close> and \<open>h\<close> are
  \<open>-40\<close> and \<open>-60\<close>, the box returned has negative \<open>w\<close> and \<open>h\<close> and the anchor
  \<open>(100, 100)\<close>, not the normalized box \<open>(60, 40, 40, 60)\<close>.
\<close>

theorem getShapeBounds_rect_not_normalized:
  "getShapeBounds (Rect ''r1'' 100 100 (- 40) (- 60))
     = Some \<lparr>bounds_x = 100, bounds_y = 100, bounds_w = - 40, bounds_h = - 60\<rparr>
   \<and> getShapeBounds (Rect ''r1'' 100 100 (- 40) (- 60))
     \<noteq> Some \<lparr>bounds_x = 60, bounds_y = 40, bounds_w = 40, bounds_h = 60\<rparr>"
  by simp

text \<open>
  Such a rectangle is what \<open>endDraw\<close> commits for a drag towards the upper left. The
  program calls \<open>getShapeBounds\<close> only for shapes that a click has hit
  (\<^verbatim>\<open>drawSelection\<close> for the selected ids, \<^verbatim>\<open>startDraw\<close> for the clicked shape), and in
  exact arithmetic no point hits a rectangle of negative width.
\<close>

lemma endDraw_commits_negative_rect:
  "shapes (endDraw (Some \<lparr>rect_left = 0, rect_top = 0, has_context_2d = True\<rparr>) ''r1''
      \<lparr>clientX = 60, clientY = 40\<rparr>
      (initial_state\<lparr>isDrawing := True, tool := RectTool, start := Point 100 100\<rparr>))
     = [Rect ''r1'' 100 100 (- 40) (- 60)]"
proof -
  have s: "snap 60 = 60" "snap 40 = 40"
    using snap_of_multiple [of 3] snap_of_multiple [of 2] by simp_all
  show ?thesis
    by (simp add: endDraw_def getCtx_def initial_state_def pos_def Let_def s)
qed

lemma isPointInShape_rect_negative_width:
  "w < 0 \<Longrightarrow> isPointInShape z point (Rect i x y w h) = Inr False"
  by auto

lemma isPointInShape_rect_negative_height:
  "h < 0 \<Longrightarrow> isPointInShape z point (Rect i x y w h) = Inr False"
  by auto

section \<open>Hit test of a pen path\<close>

lemma pen_segments_hit_in_bounds:
  "pen_segments_hit h p pts i \<noteq> Inl TypeError"
proof (induction h p pts i rule: pen_segments_hit.induct)
  case (1 h p pts i)
  show ?case
  proof (cases "int i < int (length pts) - 1")
    case True
    then have a: "at_index pts i = Some (pts ! i)" "at_index pts (i + 1) = Some (pts ! (i + 1))"
      by (auto simp: at_index_def)
    have ih: "\<not> distanceToSegment p (pts ! i) (pts ! (i + 1)) < h
        \<Longrightarrow> pen_segments_hit h p pts (i + 1) \<noteq> Inl TypeError"
      using "1.IH" [OF True, of "at_index pts i" "at_index pts (i + 1)" "pts ! i" "pts ! (i + 1)"] a
      by simp
    show ?thesis
      using True a ih
      by (subst pen_segments_hit.simps) (simp del: pen_segments_hit.simps)
  next
    case False
    then show ?thesis by (subst pen_segments_hit.simps) simp
  qed
qed

text \<open>
  Claim C10. For a pen shape with fewer than two points (none or one) and any query
  point, \<open>isPointInShape\<close> returns false; the result is a value, not the error of a read
  past the end of the list, so the loop over the segments has read no point out of
  bounds.
\<close>

theorem isPointInShape_short_pen:
  "length pts < 2 \<Longrightarrow>
     isPointInShape z point (Pen i pts) = Inr False
     \<and> isPointInShape z point (Pen i pts) \<noteq> Inl TypeError"
  by (simp add: pen_segments_hit.simps [of _ _ pts 0])

theorem isPointInShape_short_pen_witness:
  "length [Point (3::real) 4] < 2
   \<and> isPointInShape 1 (Point 0 0) (Pen ''p'' [Point 3 4]) = Inr False
   \<and> length ([] :: real point list) < 2
   \<and> isPointInShape 1 (Point 0 0) (Pen ''p'' []) = Inr False"
  using isPointInShape_short_pen [of "[Point 3 4]" 1 "Point 0 0" "''p''"]
    isPointInShape_short_pen [of "[]" 1 "Point 0 0" "''p''"]
  by simp

section \<open>Translation of shapes\<close>

lemma moveShapeBy_shape_id: "shape_id (moveShapeBy s dx dy) = shape_id s"
  by (cases s) simp_all

text \<open>
  Claim C4, as amended. In exact arithmetic (coordinates and offsets real numbers),
  translating a shape by \<open>(dx, dy)\<close> and the result by \<open>(-dx, -dy)\<close> gives the original
  shape back: every coordinate, and the id; a translation leaves a circle's radius as
  it is.
\<close>

theorem moveShapeBy_inverse:
  fixes s :: "real shape"
  shows "moveShapeBy (moveShapeBy s dx dy) (- dx) (- dy) = s
    \<and> moveShapeBy (Circle i cx cy r) dx dy = Circle i (cx + dx) (cy + dy) r"
  by (cases s) (simp_all add: comp_def)

text \<open>
  With the rounding of binary64 addition the claim fails as stated. The number nearest
  to \<open>0.1\<close> is \<open>7205759403792794 / 2 ^ 56\<close>, the one nearest to \<open>0.2\<close> is twice that.
  A rectangle at \<open>x = 0.1\<close> moved by \<open>0.2\<close> and back by \<open>-0.2\<close> ends at
  \<open>7205759403792796 / 2 ^ 56\<close>, which JavaScript prints as \<^verbatim>\<open>0.10000000000000003\<close>.
\<close>

lemma bit_length_numeral:
  "bit_length 0 = 0"
  "bit_length 1 = 1"
  "bit_length (numeral n) = Suc (bit_length (numeral n div 2))"
  by (subst bit_length.simps, simp)+

text \<open>
  \<open>round_to_double\<close> returns the value itself when 53 bits hold it, and otherwise a
  value at most half a unit in the last place away.
\<close>

lemma round_to_double_exact:
  assumes "int (bit_length \<bar>m\<bar>) \<le> 53"
  shows "double_value (round_to_double m e) = of_int m * 2 powi e"
proof (cases "m = 0")
  case True
  then show ?thesis by (simp add: round_to_double_def double_value_def)
next
  case False
  define k where "k = int (bit_length \<bar>m\<bar>) - 53"
  have k: "k \<le> 0" using assms by (simp add: k_def)
  have r: "round_to_double m e = Double (m * 2 ^ nat (- k)) (e + k)"
    using False k by (simp add: round_to_double_def Let_def k_def)
  have "(2::real) ^ nat (- k) = 2 powi (- k)"
    using k by (simp add: power_int_def)
  then have "real_of_int (m * 2 ^ nat (- k)) * 2 powi (e + k) = of_int m * (2 powi (- k) * 2 powi (e + k))"
    by simp
  also have "2 powi (- k) * 2 powi (e + k) = (2::real) powi e"
    by (simp flip: power_int_add)
  finally show ?thesis
    by (simp add: r double_value_def)
qed

lemma round_to_double_nearest:
  assumes "k = int (bit_length \<bar>m\<bar>) - 53" "0 < k"
  shows "\<bar>double_value (round_to_double m e) - of_int m * 2 powi e\<bar> \<le> 2 powi (e + k - 1)"
proof -
  have m0: "m \<noteq> 0" using assms by (auto simp: bit_length.simps)
  define q where "q = m div 2 ^ nat k"
  define r where "r = m mod 2 ^ nat k"
  define half :: int where "half = 2 ^ (nat k - 1)"
  define q' where "q' = (if r > half \<or> (r = half \<and> odd q) then q + 1 else q)"
  have two: "(2::int) ^ nat k = 2 * half"
    using assms(2) unfolding half_def by (cases "nat k") auto
  have hp: "0 < half" unfolding half_def by simp
  have m: "m = q * (2 * half) + r" "0 \<le> r" "r < 2 * half"
    using div_mult_mod_eq [of m "2 * half"] hp
    unfolding q_def r_def two by simp_all
  have d: "\<bar>q' * (2 * half) - m\<bar> \<le> half"
    using m unfolding q'_def by (auto simp: algebra_simps)
  have rd: "round_to_double m e
      = (if \<bar>q'\<bar> = 2 ^ 53 then Double (q' div 2) (e + k + 1) else Double q' (e + k))"
    using m0 assms(2)
    unfolding round_to_double_def Let_def q'_def q_def r_def half_def assms(1) [symmetric]
    by simp
  have v: "double_value (round_to_double m e) = of_int q' * 2 powi (e + k)"
  proof (cases "\<bar>q'\<bar> = 2 ^ 53")
    case True
    then have "q' = 2 ^ 53 \<or> q' = - (2 ^ 53)" by linarith
    then have ev: "q' = 2 * (q' div 2)" by auto
    have "round_to_double m e = Double (q' div 2) (e + k + 1)"
      unfolding rd using True by (simp only: if_True refl)
    then have "double_value (round_to_double m e) = of_int (q' div 2) * 2 powi (e + k + 1)"
      by (simp add: double_value_def)
    also have "\<dots> = of_int (q' div 2) * (2 * 2 powi (e + k))"
      by (simp add: power_int_add)
    also have "\<dots> = of_int (2 * (q' div 2)) * 2 powi (e + k)"
      by simp
    finally show ?thesis using ev by simp
  next
    case False
    then have "round_to_double m e = Double q' (e + k)"
      unfolding rd by (simp only: if_False refl)
    then show ?thesis by (simp add: double_value_def)
  qed
  have "real_of_int (2 ^ nat k) = real_of_int (2 * half)"
    by (simp only: two)
  then have hk: "(2::real) powi k = 2 * of_int half"
    using assms(2) by (simp add: power_int_def)
  have eq: "of_int q' * 2 powi (e + k) - of_int m * 2 powi e
      = (2::real) powi e * of_int (q' * (2 * half) - m)"
    by (simp add: power_int_add hk algebra_simps)
  have h2: "(2::real) powi (e + k - 1) = 2 powi e * of_int half"
  proof -
    have "(2::real) powi (e + k - 1) = 2 powi e * 2 powi k * 2 powi (- 1)"
      by (simp add: power_int_add power_int_diff)
    then show ?thesis by (simp add: hk)
  qed
  have "\<bar>(2::real) powi e * of_int (q' * (2 * half) - m)\<bar> = 2 powi e * \<bar>of_int (q' * (2 * half) - m)\<bar>"
    by (simp add: abs_mult)
  also have "\<dots> \<le> 2 powi e * of_int half"
  proof -
    have "\<bar>real_of_int (q' * (2 * half) - m)\<bar> \<le> of_int half"
      using d by linarith
    then show ?thesis by (simp add: mult_left_mono)
  qed
  finally show ?thesis
    unfolding v eq h2 .
qed

lemma double_nearest_one_tenth:
  "\<bar>double_value (Double 7205759403792794 (- 56)) - 1 / 10\<bar> < 2 powi (- 57)"
  by (simp add: double_value_def power_int_minus field_simps)

lemma double_nearest_two_tenths:
  "\<bar>double_value (Double 7205759403792794 (- 55)) - 2 / 10\<bar> < 2 powi (- 56)"
  by (simp add: double_value_def power_int_minus field_simps)

lemma double_add_one_tenth_two_tenths:
  "Double 7205759403792794 (- 56) + Double 7205759403792794 (- 55)
     = Double 5404319552844596 (- 54)"
  by (simp add: plus_double_def round_to_double_def Let_def bit_length_numeral)

lemma double_sub_two_tenths:
  "Double 5404319552844596 (- 54) + (- Double 7205759403792794 (- 55))
     = Double 7205759403792796 (- 56)"
  by (simp add: plus_double_def uminus_double_def round_to_double_def Let_def bit_length_numeral)

lemma double_add_zero: "Double 0 0 + Double 0 0 = Double 0 0" "- Double 0 0 = Double 0 0"
  by (simp_all add: plus_double_def uminus_double_def round_to_double_def)

theorem moveShapeBy_inverse_rounding_counterexample:
  "moveShapeBy
     (moveShapeBy
        (Rect ''r1'' (Double 7205759403792794 (- 56)) (Double 0 0) (Double 0 0) (Double 0 0))
        (Double 7205759403792794 (- 55)) (Double 0 0))
     (- Double 7205759403792794 (- 55)) (- Double 0 0)
   = Rect ''r1'' (Double 7205759403792796 (- 56)) (Double 0 0) (Double 0 0) (Double 0 0)
   \<and> moveShapeBy
     (moveShapeBy
        (Rect ''r1'' (Double 7205759403792794 (- 56)) (Double 0 0) (Double 0 0) (Double 0 0))
        (Double 7205759403792794 (- 55)) (Double 0 0))
     (- Double 7205759403792794 (- 55)) (- Double 0 0)
   \<noteq> Rect ''r1'' (Double 7205759403792794 (- 56)) (Double 0 0) (Double 0 0) (Double 0 0)"
  by (simp add: double_add_one_tenth_two_tenths double_sub_two_tenths double_add_zero)

section \<open>Binary floating point: error bounds\<close>

text \<open>
  The number of bits of a positive integer brackets it between two powers of two.
\<close>

lemma bit_length_bounds:
  "0 < n \<Longrightarrow> 2 ^ (bit_length n - 1) \<le> n \<and> n < 2 ^ bit_length n"
proof (induction n rule: bit_length.induct)
  case (1 n)
  show ?case
  proof (cases "n = 1")
    case True
    then show ?thesis by (simp add: bit_length.simps [of 1] bit_length.simps [of 0])
  next
    case False
    with "1.prems" have h: "0 < n div 2" by linarith
    have ih: "2 ^ (bit_length (n div 2) - 1) \<le> n div 2 \<and> n div 2 < 2 ^ bit_length (n div 2)"
      using "1.IH" "1.prems" h by simp
    have bl: "bit_length n = Suc (bit_length (n div 2))"
      using "1.prems" by (subst bit_length.simps) simp
    have pos: "0 < bit_length (n div 2)"
      using h by (subst bit_length.simps) simp
    then obtain j where j: "bit_length (n div 2) = Suc j" by (cases "bit_length (n div 2)") auto
    have lo: "(2::int) ^ Suc j \<le> n"
    proof -
      have "(2::int) ^ j \<le> n div 2" using ih j by simp
      then have "2 * (2::int) ^ j \<le> 2 * (n div 2)" by simp
      also have "\<dots> \<le> n" by simp
      finally show ?thesis by simp
    qed
    have hi: "n < 2 ^ Suc (Suc j)"
    proof -
      have "n div 2 < 2 ^ Suc j" using ih j by simp
      then have "n div 2 + 1 \<le> 2 ^ Suc j" by simp
      then have "2 * (n div 2) + 2 \<le> 2 * 2 ^ Suc j" by simp
      moreover have "n \<le> 2 * (n div 2) + 1" by linarith
      ultimately show ?thesis by simp
    qed
    show ?thesis using lo hi by (simp add: bl j)
  qed
qed

text \<open>
  Rounding an exact value \<open>m * 2 ^ e\<close> to binary64 changes it by at most the fraction
  \<open>2 ^ -53\<close> of its magnitude.
\<close>

lemma round_to_double_error:
  "\<bar>double_value (round_to_double m e) - of_int m * 2 powi e\<bar>
     \<le> \<bar>of_int m * 2 powi e\<bar> / 2 ^ 53"
proof (cases "int (bit_length \<bar>m\<bar>) \<le> 53")
  case True
  then show ?thesis by (simp add: round_to_double_exact)
next
  case False
  define k where "k = int (bit_length \<bar>m\<bar>) - 53"
  have k: "0 < k" using False by (simp add: k_def)
  have m0: "0 < \<bar>m\<bar>" using False by (auto simp: bit_length.simps)
  have "2 ^ (bit_length \<bar>m\<bar> - 1) \<le> \<bar>m\<bar>"
    using bit_length_bounds [OF m0] by simp
  moreover have "bit_length \<bar>m\<bar> - 1 = nat (k + 52)"
    using k by (simp add: k_def)
  ultimately have "(2::int) ^ nat (k + 52) \<le> \<bar>m\<bar>" by simp
  then have "real_of_int (2 ^ nat (k + 52)) \<le> real_of_int \<bar>m\<bar>"
    by (rule of_int_le_iff [THEN iffD2])
  then have lo: "(2::real) powi (k + 52) \<le> \<bar>of_int m\<bar>"
    using k by (simp add: power_int_def)
  have "\<bar>double_value (round_to_double m e) - of_int m * 2 powi e\<bar> \<le> 2 powi (e + k - 1)"
    by (rule round_to_double_nearest [OF k_def k])
  also have "(2::real) powi (e + k - 1) = 2 powi (k + 52) * 2 powi e / 2 ^ 53"
  proof -
    have pa: "(2::real) powi (a + b) = 2 powi a * 2 powi b" for a b
      by (simp add: power_int_add)
    have "(2::real) powi (e + k - 1 + 53) = 2 powi (k + 52 + e)"
      by (rule arg_cong [where f = "power_int 2"]) simp
    then have "(2::real) powi (e + k - 1) * 2 powi 53 = 2 powi (k + 52) * 2 powi e"
      by (simp only: pa)
    then have "(2::real) powi (e + k - 1) * 2 ^ 53 = 2 powi (k + 52) * 2 powi e"
      by (simp only: power_int_numeral)
    then show ?thesis by (simp add: field_simps)
  qed
  also have "\<dots> \<le> \<bar>of_int m\<bar> * 2 powi e / 2 ^ 53"
    using lo by (simp add: divide_right_mono mult_right_mono)
  also have "\<dots> = \<bar>of_int m * 2 powi e\<bar> / 2 ^ 53"
    by (simp add: abs_mult)
  finally show ?thesis .
qed

text \<open>
  The rounded quotient is within the fraction \<open>2 ^ -52\<close> of the exact quotient.
\<close>

lemma round_ratio_error:
  assumes d: "0 < d"
  shows "\<bar>double_value (round_ratio n d e) - of_int n / of_int d * 2 powi e\<bar>
     \<le> \<bar>of_int n / of_int d * 2 powi e\<bar> / 2 ^ 52"
proof (cases "n = 0")
  case True
  then show ?thesis by (simp add: round_ratio_def double_value_def)
next
  case False
  define s where "s = nat (max 0 (55 + int (bit_length d) - int (bit_length \<bar>n\<bar>)))"
  define N where "N = n * 2 ^ s"
  define q where "q = N div d"
  define r where "r = N mod d"
  define m where "m = 2 * q + (if r = 0 then 0 else 1)"
  define e' where "e' = e - int s - 1"
  define T :: real where "T = of_int N / of_int d"
  define A :: real where "A = 2 powi e'"
  have A: "0 < A" by (simp add: A_def)
  have rr: "round_ratio n d e = round_to_double m e'"
    using False d by (simp add: round_ratio_def Let_def s_def N_def q_def r_def m_def e'_def)
  have Nqr: "N = q * d + r" "0 \<le> r" "r < d"
    using d by (simp_all add: q_def r_def)
  have dr: "0 < real_of_int d" using d by simp
  have Tq: "of_int q \<le> T" "T < of_int q + 1"
  proof -
    have "T = of_int q + of_int r / of_int d"
      using dr by (simp add: T_def Nqr(1) field_simps)
    moreover have "0 \<le> real_of_int r / of_int d" using Nqr(2) dr by simp
    moreover have "real_of_int r / of_int d < 1" using Nqr(3) dr by simp
    ultimately show "of_int q \<le> T" "T < of_int q + 1" by linarith+
  qed
  have mT: "\<bar>of_int m - 2 * T\<bar> \<le> 1"
  proof (cases "r = 0")
    case True
    then have "T = of_int q" using dr by (simp add: T_def Nqr(1))
    then show ?thesis using True by (simp add: m_def)
  next
    case False
    then have "real_of_int m = 2 * of_int q + 1" by (simp add: m_def)
    then show ?thesis using Tq by linarith
  qed
  have big: "2 ^ 54 \<le> \<bar>T\<bar>"
  proof -
    have n0: "0 < \<bar>n\<bar>" using False by simp
    have ln: "2 ^ (bit_length \<bar>n\<bar> - 1) \<le> \<bar>n\<bar>"
      using bit_length_bounds [OF n0] by simp
    have ld: "d < 2 ^ bit_length d"
      using bit_length_bounds [OF d] by simp
    have bn: "0 < bit_length \<bar>n\<bar>"
      using n0 by (subst bit_length.simps) simp
    have ex: "54 + bit_length d \<le> (bit_length \<bar>n\<bar> - 1) + s"
      using bn by (simp add: s_def)
    have "(2::int) ^ 54 * d \<le> 2 ^ 54 * 2 ^ bit_length d"
      using ld by simp
    also have "\<dots> = 2 ^ (54 + bit_length d)" by (simp add: power_add)
    also have "\<dots> \<le> 2 ^ ((bit_length \<bar>n\<bar> - 1) + s)"
      using ex by (rule power_increasing) simp
    also have "\<dots> = 2 ^ (bit_length \<bar>n\<bar> - 1) * 2 ^ s" by (simp add: power_add)
    also have "\<dots> \<le> \<bar>n\<bar> * 2 ^ s" using ln by simp
    also have "\<dots> = \<bar>N\<bar>" by (simp add: N_def abs_mult)
    finally have "(2::int) ^ 54 * d \<le> \<bar>N\<bar>" .
    then have "real_of_int (2 ^ 54 * d) \<le> real_of_int \<bar>N\<bar>"
      by (rule of_int_le_iff [THEN iffD2])
    then have "2 ^ 54 * real_of_int d \<le> \<bar>real_of_int N\<bar>" by simp
    then have "2 ^ 54 \<le> \<bar>real_of_int N\<bar> / real_of_int d"
      using dr by (simp add: field_simps)
    then show ?thesis using dr by (simp add: T_def abs_divide)
  qed
  have X: "of_int n / of_int d * 2 powi e = 2 * T * A"
  proof -
    have "(2::real) powi (e' + (int s + 1)) = 2 powi e' * 2 powi (int s + 1)"
      by (simp add: power_int_add)
    moreover have "e' + (int s + 1) = e" by (simp add: e'_def)
    moreover have "(2::real) powi (int s + 1) = 2 * 2 ^ s"
      by (simp add: power_int_add)
    ultimately have "(2::real) powi e = A * (2 * 2 ^ s)" by (simp add: A_def)
    then show ?thesis by (simp add: T_def N_def)
  qed
  have B: "\<bar>double_value (round_to_double m e') - of_int m * A\<bar> \<le> \<bar>of_int m * A\<bar> / 2 ^ 53"
    unfolding A_def by (rule round_to_double_error)
  have mA: "\<bar>real_of_int m * A\<bar> = \<bar>of_int m\<bar> * A" using A by (simp add: abs_mult)
  have m2: "\<bar>real_of_int m\<bar> \<le> \<bar>2 * T\<bar> + 1" using mT by linarith
  have "\<bar>double_value (round_to_double m e') - 2 * T * A\<bar>
      \<le> \<bar>double_value (round_to_double m e') - of_int m * A\<bar> + \<bar>of_int m * A - 2 * T * A\<bar>"
    by linarith
  also have "\<bar>of_int m * A - 2 * T * A\<bar> = \<bar>of_int m - 2 * T\<bar> * A"
    using A by (simp add: abs_mult flip: left_diff_distrib)
  also have "\<bar>double_value (round_to_double m e') - of_int m * A\<bar> + \<bar>of_int m - 2 * T\<bar> * A
      \<le> (\<bar>2 * T\<bar> + 1) * A / 2 ^ 53 + 1 * A"
  proof -
    have "\<bar>of_int m\<bar> * A / 2 ^ 53 \<le> (\<bar>2 * T\<bar> + 1) * A / 2 ^ 53"
      using m2 A by (simp add: divide_right_mono mult_right_mono)
    moreover have "\<bar>of_int m - 2 * T\<bar> * A \<le> 1 * A"
      using mT A by (simp only: mult_right_mono less_imp_le)
    moreover have "\<bar>double_value (round_to_double m e') - of_int m * A\<bar>
        \<le> \<bar>of_int m\<bar> * A / 2 ^ 53"
      using B unfolding mA .
    ultimately show ?thesis
      by (meson add_mono order_trans)
  qed
  also have "\<dots> \<le> \<bar>2 * T\<bar> * A / 2 ^ 52"
  proof -
    have "\<bar>2 * T\<bar> = 2 * \<bar>T\<bar>" by simp
    then have "(\<bar>2 * T\<bar> + 1) / 2 ^ 53 + 1 \<le> \<bar>2 * T\<bar> / 2 ^ 52"
      using big by (simp add: field_simps)
    then have "((\<bar>2 * T\<bar> + 1) / 2 ^ 53 + 1) * A \<le> \<bar>2 * T\<bar> / 2 ^ 52 * A"
      using A by (simp only: mult_right_mono less_imp_le)
    then show ?thesis by (simp add: field_simps)
  qed
  also have "\<bar>2 * T\<bar> * A / 2 ^ 52 = \<bar>2 * T * A\<bar> / 2 ^ 52"
    using A by (simp add: abs_mult)
  finally show ?thesis
    unfolding rr X .
qed

text \<open>
  The same bounds for the operations on \<open>double\<close>, and their coarse forms
  \<open>0.999 x \<le> fl x \<le> 1.001 x\<close> for a non-negative exact result \<open>x\<close>.
\<close>

lemma double_value_times:
  "\<bar>double_value (a * b) - double_value a * double_value b\<bar>
     \<le> \<bar>double_value a * double_value b\<bar> / 2 ^ 53"
proof -
  obtain m1 e1 where a: "a = Double m1 e1" by (cases a)
  obtain m2 e2 where b: "b = Double m2 e2" by (cases b)
  have pa: "(2::real) powi (e1 + e2) = 2 powi e1 * 2 powi e2"
    by (simp add: power_int_add)
  have r: "a * b = round_to_double (m1 * m2) (e1 + e2)"
    by (simp add: a b times_double_def)
  have eq: "real_of_int (m1 * m2) * 2 powi (e1 + e2) = double_value a * double_value b"
    by (simp add: a b double_value_def pa)
  show ?thesis
    unfolding r eq [symmetric] by (rule round_to_double_error)
qed

lemma double_value_divide:
  assumes "double_value b \<noteq> 0"
  shows "\<bar>double_value (a / b) - double_value a / double_value b\<bar>
     \<le> \<bar>double_value a / double_value b\<bar> / 2 ^ 52"
proof -
  obtain m1 e1 where a: "a = Double m1 e1" by (cases a)
  obtain m2 e2 where b: "b = Double m2 e2" by (cases b)
  have m2: "m2 \<noteq> 0" using assms by (auto simp: b double_value_def)
  then have d: "0 < \<bar>m2\<bar>" by simp
  have sg: "real_of_int (m1 * sgn m2) / real_of_int \<bar>m2\<bar> = of_int m1 / of_int m2"
    using m2 by (cases "0 < m2") (simp_all add: sgn_if)
  have pd: "(2::real) powi (e1 - e2) = 2 powi e1 / 2 powi e2"
    by (simp add: power_int_diff)
  have r: "a / b = round_ratio (m1 * sgn m2) \<bar>m2\<bar> (e1 - e2)"
    by (simp add: a b divide_double_def)
  have eq: "real_of_int (m1 * sgn m2) / real_of_int \<bar>m2\<bar> * 2 powi (e1 - e2)
      = double_value a / double_value b"
    unfolding sg pd by (simp add: a b double_value_def)
  show ?thesis
    unfolding r eq [symmetric] by (rule round_ratio_error [OF d])
qed

lemma double_value_decimal:
  "\<bar>double_value (decimal a k) - of_int a / 10 ^ k\<bar> \<le> \<bar>of_int a / 10 ^ k\<bar> / 2 ^ 52"
proof -
  have "(0::int) < 10 ^ k" by simp
  from round_ratio_error [OF this, of a 0] show ?thesis
    by (simp add: decimal_def)
qed

lemma relative_bounds:
  fixes V x :: real
  assumes "\<bar>V - x\<bar> \<le> \<bar>x\<bar> / 2 ^ 52" "0 \<le> x"
  shows "x * 0.999 \<le> V" "V \<le> x * 1.001"
proof -
  have "x / 2 ^ 52 \<le> x / 1000"
    using assms(2) by (intro divide_left_mono) simp_all
  moreover have "\<bar>V - x\<bar> \<le> x / 2 ^ 52"
    using assms by simp
  ultimately have "\<bar>V - x\<bar> \<le> x / 1000" by linarith
  then have "V - x \<le> x / 1000" "x - V \<le> x / 1000" by linarith+
  then show "x * 0.999 \<le> V" "V \<le> x * 1.001"
    by simp_all
qed

lemma relative_bounds_53:
  fixes V x :: real
  assumes "\<bar>V - x\<bar> \<le> \<bar>x\<bar> / 2 ^ 53" "0 \<le> x"
  shows "x * 0.999 \<le> V" "V \<le> x * 1.001"
proof -
  have "\<bar>x\<bar> / 2 ^ 53 \<le> \<bar>x\<bar> / 2 ^ 52"
    by (intro divide_left_mono) simp_all
  then show "x * 0.999 \<le> V" "V \<le> x * 1.001"
    using relative_bounds [of V x] assms by simp_all
qed

lemma decimal_bounds:
  "0 \<le> a \<Longrightarrow> of_int a / 10 ^ k * 0.999 \<le> double_value (decimal a k)"
  "0 \<le> a \<Longrightarrow> double_value (decimal a k) \<le> of_int a / 10 ^ k * 1.001"
  using relative_bounds [OF double_value_decimal [of a k]] by simp_all

lemma parseFloat_toFixed2_double_nonneg:
  assumes "0 \<le> double_value x" "double_value x < 10 ^ 21"
  shows "parseFloat_toFixed2_double x = decimal \<lfloor>double_value x * 100 + 1 / 2\<rfloor> 2"
  using assms by (simp add: parseFloat_toFixed2_double_def Let_def)

lemma double_le_refl: "(a::double) \<le> a"
  by (simp add: less_eq_double_def)

lemma double_le_total: "\<not> (a::double) \<le> b \<Longrightarrow> b \<le> a"
  by (simp add: less_eq_double_def)

text \<open>Bounds on a product and on a quotient of bounded positive values.\<close>

lemma times_bounds:
  assumes "lo \<le> double_value a" "double_value a \<le> hi" "0 \<le> lo"
    and "lo' \<le> double_value b" "double_value b \<le> hi'" "0 \<le> lo'"
  shows "lo * lo' * 0.999 \<le> double_value (a * b)" "double_value (a * b) \<le> hi * hi' * 1.001"
proof -
  let ?x = "double_value a * double_value b"
  have x: "lo * lo' \<le> ?x" "?x \<le> hi * hi'" "0 \<le> ?x"
    using assms by (auto intro!: mult_mono)
  have "?x * 0.999 \<le> double_value (a * b)" "double_value (a * b) \<le> ?x * 1.001"
    using relative_bounds_53 [OF double_value_times [of a b] x(3)] by simp_all
  then show "lo * lo' * 0.999 \<le> double_value (a * b)" "double_value (a * b) \<le> hi * hi' * 1.001"
    using x by simp_all
qed

lemma divide_bounds:
  assumes "lo \<le> double_value a" "double_value a \<le> hi" "0 \<le> lo"
    and "lo' \<le> double_value b" "double_value b \<le> hi'" "0 < lo'"
  shows "lo / hi' * 0.999 \<le> double_value (a / b)" "double_value (a / b) \<le> hi / lo' * 1.001"
proof -
  let ?x = "double_value a / double_value b"
  have b: "0 < double_value b" "double_value b \<noteq> 0" using assms by simp_all
  have x: "lo / hi' \<le> ?x" "?x \<le> hi / lo'" "0 \<le> ?x"
    using assms b by (auto intro!: frac_le)
  have "?x * 0.999 \<le> double_value (a / b)" "double_value (a / b) \<le> ?x * 1.001"
    using relative_bounds [OF double_value_divide [OF b(2), of a] x(3)] by simp_all
  then show "lo / hi' * 0.999 \<le> double_value (a / b)" "double_value (a / b) \<le> hi / lo' * 1.001"
    using x by simp_all
qed

text \<open>
  Evaluation of the operations on concrete values, and the constants of the zoom
  handlers.
\<close>

lemmas double_eval = plus_double_def uminus_double_def minus_double_def times_double_def
  divide_double_def zero_double_def one_double_def round_to_double_def round_ratio_def
  decimal_def Let_def bit_length_numeral less_eq_double_def less_double_def double_value_def
  Math_round_double_def parseFloat_toFixed2_double_def

lemma decimal_same:
  "decimal 5 0 = decimal 500 2" "decimal 1 1 = decimal 10 2" "(1::double) = decimal 100 2"
  "decimal 1 1 \<le> decimal 5 0"
  by (simp_all add: double_eval)

lemma zoom_constant_bounds:
  "0.0999 \<le> double_value (decimal 1 1)" "double_value (decimal 1 1) \<le> 0.1001"
  "4.995 \<le> double_value (decimal 5 0)" "double_value (decimal 5 0) \<le> 5.005"
  "1.1988 \<le> double_value (decimal 12 1)" "double_value (decimal 12 1) \<le> 1.2012"
  "0.8991 \<le> double_value (decimal 9 1)" "double_value (decimal 9 1) \<le> 0.9009"
  "1.0989 \<le> double_value (decimal 11 1)" "double_value (decimal 11 1) \<le> 1.1011"
  using decimal_bounds [of 1 1] decimal_bounds [of 5 0] decimal_bounds [of 12 1]
    decimal_bounds [of 9 1] decimal_bounds [of 11 1]
  by simp_all

lemma toFixed2_double_between:
  assumes "lo \<le> double_value x" "double_value x \<le> hi" "0 \<le> lo" "hi \<le> 10"
  shows "\<exists>n. parseFloat_toFixed2_double x = decimal n 2
           \<and> (lo - 0.005) * 0.999 \<le> double_value (decimal n 2)
           \<and> double_value (decimal n 2) \<le> (hi + 0.005) * 1.001"
proof -
  define n where "n = \<lfloor>double_value x * 100 + 1 / 2\<rfloor>"
  have x: "0 \<le> double_value x" "double_value x < 10 ^ 21" using assms by simp_all
  have tf: "parseFloat_toFixed2_double x = decimal n 2"
    unfolding n_def by (rule parseFloat_toFixed2_double_nonneg [OF x])
  have fl: "double_value x * 100 + 1 / 2 - 1 < of_int n" "of_int n \<le> double_value x * 100 + 1 / 2"
    unfolding n_def by linarith+
  have n0: "0 \<le> n" unfolding n_def using x(1) by simp
  have lo: "(lo - 0.005) \<le> of_int n / 10 ^ 2" using fl(1) assms(1) by simp
  have hi: "of_int n / 10 ^ 2 \<le> hi + 0.005" using fl(2) assms(2) by simp
  have nn: "0 \<le> real_of_int n / 10 ^ 2" using n0 by simp
  have "(lo - 0.005) * 0.999 \<le> of_int n / 10 ^ 2 * 0.999" using lo by simp
  then have a: "(lo - 0.005) * 0.999 \<le> double_value (decimal n 2)"
    using decimal_bounds(1) [OF n0, of 2] by linarith
  have "of_int n / 10 ^ 2 * 1.001 \<le> (hi + 0.005) * 1.001" using hi by simp
  then have b: "double_value (decimal n 2) \<le> (hi + 0.005) * 1.001"
    using decimal_bounds(2) [OF n0, of 2] by linarith
  from tf a b show ?thesis by blast
qed

lemma double_max:
  fixes a b :: double
  shows "max a b = a \<or> max a b = b" "b \<le> max a b"
  by (auto simp: max_def double_le_refl double_le_total)

lemma double_min:
  fixes a b :: double
  shows "min a b = a \<or> min a b = b" "min a b \<le> b"
  by (auto simp: min_def double_le_refl double_le_total)

lemma double_min_ge:
  fixes a b c :: double
  shows "c \<le> a \<Longrightarrow> c \<le> b \<Longrightarrow> c \<le> min a b"
  by (auto simp: min_def)

lemma double_max_le:
  fixes a b c :: double
  shows "a \<le> c \<Longrightarrow> b \<le> c \<Longrightarrow> max a b \<le> c"
  by (auto simp: max_def)

section \<open>Zoom stays in range\<close>

lemma handleZoomIn_double_range:
  assumes "decimal 1 1 \<le> zoom st" "zoom st \<le> decimal 5 0"
  shows "decimal 1 1 \<le> zoom (handleZoomIn_double st)
         \<and> zoom (handleZoomIn_double st) \<le> decimal 5 0
         \<and> (\<exists>n. zoom (handleZoomIn_double st) = decimal n 2)"
proof -
  let ?p = "zoom st * decimal 12 1"
  have z: "0.0999 \<le> double_value (zoom st)" "double_value (zoom st) \<le> 5.005"
    using assms zoom_constant_bounds by (simp_all add: less_eq_double_def)
  have p: "0.0999 * 1.1988 * 0.999 \<le> double_value ?p" "double_value ?p \<le> 5.005 * 1.2012 * 1.001"
    using times_bounds [OF z(1) z(2) _ zoom_constant_bounds(5) zoom_constant_bounds(6)] by simp_all
  obtain n where n: "parseFloat_toFixed2_double ?p = decimal n 2"
    and lo: "(0.0999 * 1.1988 * 0.999 - 0.005) * 0.999 \<le> double_value (decimal n 2)"
    using toFixed2_double_between [OF p] by auto
  have ge: "decimal 1 1 \<le> decimal n 2"
    using lo zoom_constant_bounds(2) by (simp add: less_eq_double_def)
  have zi: "zoom (handleZoomIn_double st) = min (decimal n 2) (decimal 5 0)"
    unfolding handleZoomIn_double_def n by simp
  have "decimal 1 1 \<le> min (decimal n 2) (decimal 5 0)"
    using ge decimal_same(4) by (rule double_min_ge)
  moreover have "min (decimal n 2) (decimal 5 0) \<le> decimal 5 0"
    by (rule double_min(2))
  moreover have "\<exists>k. min (decimal n 2) (decimal 5 0) = decimal k 2"
    using double_min(1) [of "decimal n 2" "decimal 5 0"] decimal_same(1) by metis
  ultimately show ?thesis unfolding zi by blast
qed

lemma handleZoomOut_double_range:
  assumes "decimal 1 1 \<le> zoom st" "zoom st \<le> decimal 5 0"
  shows "decimal 1 1 \<le> zoom (handleZoomOut_double st)
         \<and> zoom (handleZoomOut_double st) \<le> decimal 5 0
         \<and> (\<exists>n. zoom (handleZoomOut_double st) = decimal n 2)"
proof -
  let ?q = "zoom st / decimal 12 1"
  have z: "0.0999 \<le> double_value (zoom st)" "double_value (zoom st) \<le> 5.005"
    using assms zoom_constant_bounds by (simp_all add: less_eq_double_def)
  have q: "0.0999 / 1.2012 * 0.999 \<le> double_value ?q" "double_value ?q \<le> 5.005 / 1.1988 * 1.001"
    using divide_bounds [OF z(1) z(2) _ zoom_constant_bounds(5) zoom_constant_bounds(6)] by simp_all
  obtain n where n: "parseFloat_toFixed2_double ?q = decimal n 2"
    and hi: "double_value (decimal n 2) \<le> (5.005 / 1.1988 * 1.001 + 0.005) * 1.001"
    using toFixed2_double_between [OF q] by auto
  have le: "decimal n 2 \<le> decimal 5 0"
    using hi zoom_constant_bounds(3) by (simp add: less_eq_double_def)
  have zo: "zoom (handleZoomOut_double st) = max (decimal n 2) (decimal 1 1)"
    unfolding handleZoomOut_double_def n by simp
  have "decimal 1 1 \<le> max (decimal n 2) (decimal 1 1)"
    by (rule double_max(2))
  moreover have "max (decimal n 2) (decimal 1 1) \<le> decimal 5 0"
    using le decimal_same(4) by (rule double_max_le)
  moreover have "\<exists>k. max (decimal n 2) (decimal 1 1) = decimal k 2"
    using double_max(1) [of "decimal n 2" "decimal 1 1"] decimal_same(2) by metis
  ultimately show ?thesis unfolding zo by blast
qed

lemma handleWheel_double_zoom:
  "zoom (handleWheel_double (Some cv) e st)
     = min (max (parseFloat_toFixed2_double
                   (zoom st * (if 0 < deltaY e then decimal 9 1 else decimal 11 1)))
                (decimal 1 1))
           (decimal 5 0)"
  by (simp add: handleWheel_double_def Let_def)

lemma handleWheel_double_range:
  assumes "decimal 1 1 \<le> zoom st" "zoom st \<le> decimal 5 0"
  shows "decimal 1 1 \<le> zoom (handleWheel_double (Some cv) e st)
         \<and> zoom (handleWheel_double (Some cv) e st) \<le> decimal 5 0
         \<and> (\<exists>n. zoom (handleWheel_double (Some cv) e st) = decimal n 2)"
proof -
  let ?d = "if 0 < deltaY e then decimal 9 1 else decimal 11 1"
  let ?p = "zoom st * ?d"
  have z: "0.0999 \<le> double_value (zoom st)" "double_value (zoom st) \<le> 5.005"
    using assms zoom_constant_bounds by (simp_all add: less_eq_double_def)
  have d: "0.8991 \<le> double_value ?d" "double_value ?d \<le> 1.1011"
    using zoom_constant_bounds by auto
  have p: "0.0999 * 0.8991 * 0.999 \<le> double_value ?p" "double_value ?p \<le> 5.005 * 1.1011 * 1.001"
    using times_bounds [OF z(1) z(2) _ d(1) d(2)] by simp_all
  obtain n where n: "parseFloat_toFixed2_double ?p = decimal n 2"
    using toFixed2_double_between [OF p] by auto
  have zw: "zoom (handleWheel_double (Some cv) e st)
      = min (max (decimal n 2) (decimal 1 1)) (decimal 5 0)"
    unfolding handleWheel_double_zoom n ..
  define r where "r = max (decimal n 2) (decimal 1 1)"
  have r1: "decimal 1 1 \<le> r"
    unfolding r_def by (rule double_max(2))
  have r2: "\<exists>k. r = decimal k 2"
    unfolding r_def
    using double_max(1) [of "decimal n 2" "decimal 1 1"] decimal_same(2) by metis
  have "decimal 1 1 \<le> min r (decimal 5 0)"
    using r1 decimal_same(4) by (rule double_min_ge)
  moreover have "min r (decimal 5 0) \<le> decimal 5 0"
    by (rule double_min(2))
  moreover have "\<exists>k. min r (decimal 5 0) = decimal k 2"
    using double_min(1) [of r "decimal 5 0"] decimal_same(1) r2 by metis
  ultimately show ?thesis unfolding zw r_def by blast
qed

text \<open>
  Claim C8. In the program's binary64 arithmetic, from a zoom in \<open>[0.1, 5]\<close>, the zoom
  after a zoom-in step, a zoom-out step or a wheel step is in \<open>[0.1, 5]\<close> again and is a
  number of two decimals, which is to say the binary64 value nearest to \<open>n / 100\<close> for
  an integer \<open>n\<close>; a wheel event without a mounted canvas changes nothing; a reset sets
  the zoom to \<open>1\<close>. The bounds \<open>0.1\<close> and \<open>5\<close> are the literals of the source, the
  binary64 values nearest to them.
\<close>

theorem zoom_operations_range:
  fixes cv :: "double canvas" and e :: "double wheel_event" and st :: "double state"
  assumes "decimal 1 1 \<le> zoom st" "zoom st \<le> decimal 5 0"
  shows "(decimal 1 1 \<le> zoom (handleZoomIn_double st)
            \<and> zoom (handleZoomIn_double st) \<le> decimal 5 0
            \<and> (\<exists>n. zoom (handleZoomIn_double st) = decimal n 2))
       \<and> (decimal 1 1 \<le> zoom (handleZoomOut_double st)
            \<and> zoom (handleZoomOut_double st) \<le> decimal 5 0
            \<and> (\<exists>n. zoom (handleZoomOut_double st) = decimal n 2))
       \<and> (decimal 1 1 \<le> zoom (handleWheel_double (Some cv) e st)
            \<and> zoom (handleWheel_double (Some cv) e st) \<le> decimal 5 0
            \<and> (\<exists>n. zoom (handleWheel_double (Some cv) e st) = decimal n 2))
       \<and> handleWheel_double None e st = st
       \<and> zoom (handleZoomReset st) = decimal 1 0"
proof -
  have "zoom (handleZoomReset st) = decimal 1 0"
    by (simp add: handleZoomReset_def double_eval)
  moreover have "handleWheel_double None e st = st"
    by (simp add: handleWheel_double_def)
  ultimately show ?thesis
    using handleZoomIn_double_range [OF assms] handleZoomOut_double_range [OF assms]
      handleWheel_double_range [OF assms, of cv e]
    by blast
qed

text \<open>
  Zoom-out at \<open>0.21\<close> gives \<open>0.17\<close>: the quotient \<open>0.21 / 1.2\<close> is rounded to the
  binary64 value just below \<open>0.175\<close>, which \<^verbatim>\<open>toFixed(2)\<close> prints as \<open>0.17\<close>. Likewise
  three zoom-out steps from the initial zoom \<open>1\<close> give \<open>0.57\<close>, and a wheel step down at
  \<open>1.15\<close> gives \<open>1.03\<close>.
\<close>

lemma handleZoomOut_double_021:
  "zoom (handleZoomOut_double (initial_state_double\<lparr>zoom := decimal 21 2\<rparr>)) = decimal 17 2"
  by (simp add: handleZoomOut_double_def double_eval max_def)

lemma handleZoomIn_double_021:
  "zoom (handleZoomIn_double (initial_state_double\<lparr>zoom := decimal 21 2\<rparr>)) = decimal 25 2"
  by (simp add: handleZoomIn_double_def double_eval min_def)

lemma handleZoomOut_double_three_times:
  "zoom (handleZoomOut_double (handleZoomOut_double (handleZoomOut_double initial_state_double)))
     = decimal 57 2"
  by (simp add: handleZoomOut_double_def initial_state_double_def double_eval max_def)

lemma handleWheel_double_115:
  "zoom (handleWheel_double (Some \<lparr>rect_left = 0, rect_top = 0, has_context_2d = True\<rparr>)
      \<lparr>clientX = decimal 100 0, clientY = decimal 50 0, deltaY = decimal 3 0\<rparr>
      (initial_state_double\<lparr>zoom := decimal 115 2\<rparr>)) = decimal 103 2"
  by (simp add: handleWheel_double_zoom double_eval max_def min_def)

theorem zoom_operations_range_witness:
  "decimal 1 1 \<le> zoom (initial_state_double\<lparr>zoom := decimal 21 2\<rparr>)
   \<and> zoom (initial_state_double\<lparr>zoom := decimal 21 2\<rparr>) \<le> decimal 5 0
   \<and> zoom (handleZoomIn_double (initial_state_double\<lparr>zoom := decimal 21 2\<rparr>)) = decimal 25 2
   \<and> zoom (handleZoomOut_double (initial_state_double\<lparr>zoom := decimal 21 2\<rparr>)) = decimal 17 2
   \<and> decimal 1 1 \<le> zoom (handleWheel_double
         (Some \<lparr>rect_left = 0, rect_top = 0, has_context_2d = True\<rparr>)
         \<lparr>clientX = decimal 100 0, clientY = decimal 50 0, deltaY = decimal 3 0\<rparr>
         (initial_state_double\<lparr>zoom := decimal 21 2\<rparr>))
   \<and> zoom (handleZoomReset (initial_state_double\<lparr>zoom := decimal 21 2\<rparr>)) = decimal 1 0"
proof -
  let ?st = "initial_state_double\<lparr>zoom := decimal 21 2\<rparr>"
  let ?cv = "\<lparr>rect_left = 0::double, rect_top = 0, has_context_2d = True\<rparr>"
  let ?e = "\<lparr>clientX = decimal 100 0, clientY = decimal 50 0, deltaY = decimal 3 0\<rparr>"
  have h: "decimal 1 1 \<le> zoom ?st" "zoom ?st \<le> decimal 5 0"
    by (simp_all add: double_eval)
  note t = zoom_operations_range [OF h, of ?cv ?e]
  from t h handleZoomIn_double_021 handleZoomOut_double_021 show ?thesis by blast
qed

section \<open>Viewport: properties\<close>



text \<open>
  In binary64, with the zoom \<open>1\<close>, the pan \<open>(2 ^ 60, 0)\<close> and the mouse at the canvas
  position \<open>(1, 0)\<close>: the difference \<open>1 - 2 ^ 60\<close> is rounded to \<open>- 2 ^ 60\<close>, which is
  the world coordinate \<open>pos\<close> returns, and the renderer's transform takes it to the
  canvas position \<open>(0, 0)\<close>.
\<close>

lemma two_to_60: "round_to_double (2 ^ 60) 0 = Double 4503599627370496 8"
  by (simp add: double_eval)







section \<open>Grid snapping in binary64\<close>



section \<open>Delete key\<close>

text \<open>
  Claim C5. With a non-empty selection the Delete key keeps exactly the shapes whose id
  is not selected, as they are and in their order, removes the others, and empties the
  selection; nothing else in the state changes. With an empty selection no key changes
  the state.
\<close>

theorem delete_key_removes_selection:
  "(selectedShapeIds st \<noteq> {} \<longrightarrow>
      handleKeyDown ''Delete'' st
        = st\<lparr>shapes := filter (\<lambda>s. shape_id s \<notin> selectedShapeIds st) (shapes st),
             selectedShapeIds := {}\<rparr>
      \<and> set (shapes (handleKeyDown ''Delete'' st))
            = {s \<in> set (shapes st). shape_id s \<notin> selectedShapeIds st}
      \<and> shape_id ` set (shapes (handleKeyDown ''Delete'' st)) \<inter> selectedShapeIds st = {}
      \<and> subseq (shapes (handleKeyDown ''Delete'' st)) (shapes st)
      \<and> filter (\<lambda>s. shape_id s \<notin> selectedShapeIds st) (shapes (handleKeyDown ''Delete'' st))
            = filter (\<lambda>s. shape_id s \<notin> selectedShapeIds st) (shapes st)
      \<and> selectedShapeIds (handleKeyDown ''Delete'' st) = {})
   \<and> (selectedShapeIds st = {} \<longrightarrow> handleKeyDown key st = st)"
  by (auto simp add: handleKeyDown_def)

theorem delete_key_removes_selection_witness:
  "selectedShapeIds (initial_state\<lparr>shapes := [Rect ''a'' 0 0 50 50, Circle ''b'' 200 200 20,
        Line ''c'' 0 0 10 10], selectedShapeIds := {''b''}\<rparr>) \<noteq> {}
   \<and> shapes (handleKeyDown ''Delete'' (initial_state\<lparr>shapes := [Rect ''a'' 0 0 50 50,
        Circle ''b'' 200 200 20, Line ''c'' 0 0 10 10], selectedShapeIds := {''b''}\<rparr>))
       = [Rect ''a'' 0 0 50 50, Line ''c'' 0 0 10 10]
   \<and> selectedShapeIds (handleKeyDown ''Delete'' (initial_state\<lparr>shapes := [Rect ''a'' 0 0 50 50,
        Circle ''b'' 200 200 20, Line ''c'' 0 0 10 10], selectedShapeIds := {''b''}\<rparr>)) = {}
   \<and> selectedShapeIds initial_state = {}
   \<and> handleKeyDown ''Delete'' initial_state = initial_state"
proof -
  let ?st = "initial_state\<lparr>shapes := [Rect ''a'' 0 0 50 50, Circle ''b'' 200 200 20,
        Line ''c'' 0 0 10 10], selectedShapeIds := {''b''}\<rparr>"
  have h: "selectedShapeIds ?st \<noteq> {}" by simp
  have e: "selectedShapeIds initial_state = {}" by (simp add: initial_state_def)
  have k: "handleKeyDown ''Delete'' ?st
        = ?st\<lparr>shapes := filter (\<lambda>s. shape_id s \<notin> selectedShapeIds ?st) (shapes ?st),
             selectedShapeIds := {}\<rparr>"
    using delete_key_removes_selection [of ?st] h by blast
  have n: "handleKeyDown ''Delete'' initial_state = initial_state"
    using delete_key_removes_selection [of initial_state "''Delete''"] e by blast
  have s: "shapes (handleKeyDown ''Delete'' ?st) = [Rect ''a'' 0 0 50 50, Line ''c'' 0 0 10 10]"
    unfolding k by simp
  have c: "selectedShapeIds (handleKeyDown ''Delete'' ?st) = {}"
    unfolding k by simp
  from h s c e n show ?thesis by blast
qed

section \<open>Committing a drawn shape\<close>

text \<open>
  Claim C7. At the pointer-up that ends a draw gesture (drawing, neither panning nor
  dragging, the canvas has its 2D context): with the pen tool a pen shape holding the
  buffered points is appended to the scene when the buffer has at least two points, and
  the scene is unchanged when it has fewer; with the rectangle, circle and line tools
  a shape from the start point to the snapped pointer position is appended in every
  case, also when the two coincide.
\<close>

theorem endDraw_commit:
  assumes "isDrawing st" "\<not> isPanning st" "\<not> isDragging st" "getCtx canvasRef = Some cv"
  shows "(tool st = PenTool \<and> 2 \<le> length (currentPenPoints st) \<longrightarrow>
            shapes (endDraw canvasRef newId e st)
              = shapes st @ [Pen newId (currentPenPoints st)])
       \<and> (tool st = PenTool \<and> length (currentPenPoints st) < 2 \<longrightarrow>
            shapes (endDraw canvasRef newId e st) = shapes st)
       \<and> (tool st = RectTool \<longrightarrow>
            shapes (endDraw canvasRef newId e st)
              = shapes st @ [Rect newId (px (start st)) (py (start st))
                   (snap (px (pos cv st e)) - px (start st))
                   (snap (py (pos cv st e)) - py (start st))])
       \<and> (tool st = CircleTool \<longrightarrow>
            shapes (endDraw canvasRef newId e st)
              = shapes st @ [Circle newId (px (start st)) (py (start st))
                   (Math_hypot (snap (px (pos cv st e)) - px (start st))
                               (snap (py (pos cv st e)) - py (start st)))])
       \<and> (tool st = LineTool \<longrightarrow>
            shapes (endDraw canvasRef newId e st)
              = shapes st @ [Line newId (px (start st)) (py (start st))
                   (snap (px (pos cv st e))) (snap (py (pos cv st e)))])
       \<and> \<not> isDrawing (endDraw canvasRef newId e st)"
  using assms by (cases "tool st") (simp_all add: endDraw_def Let_def)

text \<open>
  Without a 2D context the gesture ends and the scene is left as it is.
\<close>

lemma endDraw_without_context:
  "isDrawing st \<Longrightarrow> \<not> isPanning st \<Longrightarrow> \<not> isDragging st \<Longrightarrow> getCtx canvasRef = None \<Longrightarrow>
     endDraw canvasRef newId e st = st\<lparr>isDrawing := False\<rparr>"
  by (simp add: endDraw_def)

theorem endDraw_commit_witness:
  "isDrawing (initial_state\<lparr>isDrawing := True, currentPenPoints := [Point 20 20]\<rparr>)
   \<and> \<not> isPanning (initial_state\<lparr>isDrawing := True, currentPenPoints := [Point 20 20]\<rparr>)
   \<and> \<not> isDragging (initial_state\<lparr>isDrawing := True, currentPenPoints := [Point 20 20]\<rparr>)
   \<and> getCtx (Some \<lparr>rect_left = 0, rect_top = 0, has_context_2d = True\<rparr>)
       = Some \<lparr>rect_left = 0, rect_top = 0, has_context_2d = True\<rparr>
   \<and> tool (initial_state\<lparr>isDrawing := True, currentPenPoints := [Point 20 20]\<rparr>) = PenTool
   \<and> length (currentPenPoints (initial_state\<lparr>isDrawing := True, currentPenPoints := [Point 20 20]\<rparr>)) < 2
   \<and> shapes (endDraw (Some \<lparr>rect_left = 0, rect_top = 0, has_context_2d = True\<rparr>) ''id1''
        \<lparr>clientX = 20, clientY = 20\<rparr>
        (initial_state\<lparr>isDrawing := True, currentPenPoints := [Point 20 20]\<rparr>)) = []
   \<and> shapes (endDraw (Some \<lparr>rect_left = 0, rect_top = 0, has_context_2d = True\<rparr>) ''id1''
        \<lparr>clientX = 20, clientY = 20\<rparr>
        (initial_state\<lparr>isDrawing := True, tool := RectTool, start := Point 20 20\<rparr>))
       = [Rect ''id1'' 20 20 0 0]"
proof -
  let ?cv = "\<lparr>rect_left = 0, rect_top = 0, has_context_2d = True\<rparr>"
  let ?e = "\<lparr>clientX = 20, clientY = 20\<rparr>"
  let ?pen = "initial_state\<lparr>isDrawing := True, currentPenPoints := [Point 20 20]\<rparr>"
  let ?rect = "initial_state\<lparr>isDrawing := True, tool := RectTool, start := Point 20 20\<rparr>"
  have ctx: "getCtx (Some ?cv) = Some ?cv"
    by (simp add: getCtx_def)
  have pen: "isDrawing ?pen" "\<not> isPanning ?pen" "\<not> isDragging ?pen" "tool ?pen = PenTool"
    "length (currentPenPoints ?pen) < 2" "shapes ?pen = []"
    by (simp_all add: initial_state_def)
  have rect: "isDrawing ?rect" "\<not> isPanning ?rect" "\<not> isDragging ?rect" "tool ?rect = RectTool"
    "shapes ?rect = []" "start ?rect = Point 20 20"
    by (simp_all add: initial_state_def)
  have p: "pos ?cv ?rect ?e = Point 20 20"
    by (simp add: pos_def initial_state_def)
  have s: "snap 20 = 20"
    using snap_of_multiple [of 1] by simp
  have a: "shapes (endDraw (Some ?cv) ''id1'' ?e ?pen) = []"
    using endDraw_commit [OF pen(1,2,3) ctx, of "''id1''" ?e] pen(4,5,6) by simp
  have b: "shapes (endDraw (Some ?cv) ''id1'' ?e ?rect) = [Rect ''id1'' 20 20 0 0]"
    using endDraw_commit [OF rect(1,2,3) ctx, of "''id1''" ?e] rect(4,5,6) p s by simp
  from ctx pen(1-5) a b show ?thesis by blast
qed

section \<open>SVG paths\<close>

lemmas parse_eval =
  parsePath_def isCommand_def trim_def isSpace_def isSpaceOrComma_def parseFloat_def
  isDigit_def digits_value_def digit_value_def at_index_def Let_def split_at_runs.simps

lemma parsePath_example:
  "parsePath ''M0,0 L10,10 L20,0 Z''
     = [Point (Some 0) (Some 0), Point (Some 10) (Some 10), Point (Some 20) (Some 0)]"
  by (simp add: parse_eval)

lemma parseSVGElement_path_example:
  "parseSVGElement ''id1'' \<lparr>tagName = ''path'', attributes = [(''d'', ''M0,0 L10,10 L20,0 Z'')]\<rparr>
     = Some (Pen ''id1'' [Point (Some 0) (Some 0), Point (Some 10) (Some 10), Point (Some 20) (Some 0)])"
  by (simp add: parseSVGElement_def toLowerCase_def getAttribute_def parsePath_example)

text \<open>
  The points come from move and line commands only, at most one point for each, so a
  close command adds no point.
\<close>

lemma parsePath_loop_step:
  "\<exists>current' points'.
     parsePath_loop values i current points (cmd # commands)
       = parsePath_loop values (i + 1) current' points' commands
     \<and> (points' = points \<and> current' = current
          \<or> isMoveOrLine cmd \<and> points' = points @ [current'])"
proof -
  define nums where "nums = map parseFloat
                   (filter (\<lambda>s. s \<noteq> [])
                      (split_at_runs isSpaceOrComma
                         (trim (case at_index values i of None \<Rightarrow> [] | Some v \<Rightarrow> v))))"
  consider (other) "\<not> isMoveOrLine cmd" | (few) "length nums < 2"
    | (move) "isMoveOrLine cmd" "2 \<le> length nums"
    by linarith
  then show ?thesis
  proof cases
    case other
    then have "parsePath_loop values i current points (cmd # commands)
       = parsePath_loop values (i + 1) current points commands"
      by (simp add: isMoveOrLine_def Let_def)
    then show ?thesis by blast
  next
    case few
    then have "parsePath_loop values i current points (cmd # commands)
       = parsePath_loop values (i + 1) current points commands"
      unfolding nums_def by (simp add: Let_def)
    then show ?thesis by blast
  next
    case move
    define c' where "c' = (if cmd = CHR ''m'' \<or> cmd = CHR ''l''
        then Point (num_add (px current) (nums ! 0)) (num_add (py current) (nums ! 1))
        else Point (nums ! 0) (nums ! 1))"
    from move have "parsePath_loop values i current points (cmd # commands)
       = parsePath_loop values (i + 1) c' (points @ [c']) commands"
      unfolding nums_def c'_def nums_def by (auto simp add: isMoveOrLine_def Let_def)
    with move(1) show ?thesis by blast
  qed
qed

lemma parsePath_loop_length:
  "length (parsePath_loop values i current points commands)
     \<le> length points + length (filter isMoveOrLine commands)"
proof (induction commands arbitrary: i current points)
  case Nil
  then show ?case by simp
next
  case (Cons cmd commands)
  obtain c' p' where s: "parsePath_loop values i current points (cmd # commands)
       = parsePath_loop values (i + 1) c' p' commands"
     and d: "p' = points \<and> c' = current \<or> isMoveOrLine cmd \<and> p' = points @ [c']"
    using parsePath_loop_step [of "values" i current points cmd commands] by blast
  have "length (parsePath_loop values (i + 1) c' p' commands)
          \<le> length p' + length (filter isMoveOrLine commands)"
    by (rule Cons.IH)
  moreover have "length p' + length (filter isMoveOrLine commands)
          \<le> length points + length (filter isMoveOrLine (cmd # commands))"
    using d by auto
  ultimately show ?case
    unfolding s by (rule order_trans)
qed

lemma parsePath_loop_other:
  "\<not> isMoveOrLine cmd \<Longrightarrow>
     parsePath_loop values i current points (cmd # commands)
       = parsePath_loop values (i + 1) current points commands"
  by (simp add: isMoveOrLine_def Let_def)

lemma parsePath_length: "length (parsePath d) \<le> length (filter isMoveOrLine d)"
proof -
  have "filter isMoveOrLine (filter isCommand d) = filter isMoveOrLine d"
    by (induction d) (auto simp: isMoveOrLine_def isCommand_def)
  then show ?thesis
    using parsePath_loop_length [of "filter (\<lambda>s. trim s \<noteq> []) (split_at_each isCommand d)" 0
        "Point (Some 0) (Some 0)" "[]" "filter isCommand d"]
    by (simp add: parsePath_def Let_def)
qed

lemma parseSVGElement_path_short:
  "length (parsePath d) < 2 \<Longrightarrow>
     parseSVGElement newId \<lparr>tagName = ''path'', attributes = [(''d'', d)]\<rparr> = None"
  by (simp add: parseSVGElement_def toLowerCase_def getAttribute_def Let_def)

text \<open>
  Claim C6. On the path data of the claim the importer returns the three points (lemma
  \<open>parsePath_example\<close>). But a command other than move and line is not ignored when
  it has no arguments and other commands follow it: the argument pieces are matched
  to the commands by position after the blank pieces are dropped, so a close command
  takes the coordinates of the command after it. \<^verbatim>\<open>M0,0 L5,5 Z M10,10 L20,20\<close> gives
  three points, the last one \<open>(20, 20)\<close>, where the same path without the \<^verbatim>\<open>Z\<close> gives
  four; and \<^verbatim>\<open>M0,0 Z L10,10\<close> gives no shape, where \<^verbatim>\<open>M0,0 L10,10\<close> gives a pen shape.
\<close>

theorem parsePath_close_in_the_middle:
  "parsePath ''M0,0 L5,5 Z M10,10 L20,20''
     = [Point (Some 0) (Some 0), Point (Some 5) (Some 5), Point (Some 20) (Some 20)]
   \<and> parsePath ''M0,0 L5,5 M10,10 L20,20''
     = [Point (Some 0) (Some 0), Point (Some 5) (Some 5), Point (Some 10) (Some 10),
        Point (Some 20) (Some 20)]
   \<and> parseSVGElement ''id1'' \<lparr>tagName = ''path'', attributes = [(''d'', ''M0,0 Z L10,10'')]\<rparr>
     = None
   \<and> parseSVGElement ''id1'' \<lparr>tagName = ''path'', attributes = [(''d'', ''M0,0 L10,10'')]\<rparr>
     = Some (Pen ''id1'' [Point (Some 0) (Some 0), Point (Some 10) (Some 10)])"
proof -
  have a: "parsePath ''M0,0 L5,5 Z M10,10 L20,20''
     = [Point (Some 0) (Some 0), Point (Some 5) (Some 5), Point (Some 20) (Some 20)]"
    by (simp add: parse_eval)
  have b: "parsePath ''M0,0 L5,5 M10,10 L20,20''
     = [Point (Some 0) (Some 0), Point (Some 5) (Some 5), Point (Some 10) (Some 10),
        Point (Some 20) (Some 20)]"
    by (simp add: parse_eval)
  have c: "parsePath ''M0,0 Z L10,10'' = [Point (Some 0) (Some 0)]"
    by (simp add: parse_eval)
  have d: "parsePath ''M0,0 L10,10'' = [Point (Some 0) (Some 0), Point (Some 10) (Some 10)]"
    by (simp add: parse_eval)
  have e: "parseSVGElement ''id1'' \<lparr>tagName = ''path'', attributes = [(''d'', ''M0,0 Z L10,10'')]\<rparr>
     = None"
    by (simp add: parseSVGElement_def toLowerCase_def getAttribute_def c)
  have f: "parseSVGElement ''id1'' \<lparr>tagName = ''path'', attributes = [(''d'', ''M0,0 L10,10'')]\<rparr>
     = Some (Pen ''id1'' [Point (Some 0) (Some 0), Point (Some 10) (Some 10)])"
    by (simp add: parseSVGElement_def toLowerCase_def getAttribute_def d)
  from a b e f show ?thesis by blast
qed

end
